theory Spec2Isabelle
  imports Complex_Main
begin

section \<open>Arrays: the part of NumPy that \<open>decomposition.py\<close> uses\<close>

text \<open>
  The class \<open>SFD\<close> of \<open>src/src/decomposition.py\<close> works on NumPy arrays through seven
  library operations: \<open>np.ma.sum\<close> and \<open>np.ma.mean\<close> along one axis, \<open>np.expand_dims\<close>, and
  the element-wise \<open>*\<close>, \<open>/\<close>, \<open>+\<close>, \<open>-\<close> of (masked) arrays with broadcasting. An array is
  its shape together with its elements in row-major order. An element is a rational number
  (exact arithmetic stands for the floating-point numbers) or \<open>None\<close>, a masked entry.
\<close>

type_synonym elem = "rat option"

record marray =
  shape :: "nat list"
  data :: "elem list"

text \<open>Everything that the code can raise.\<close>

datatype error =
    ValueError_shapes "nat list" "nat list" "nat list"
      \<comment> \<open>the \<open>ValueError\<close> of \<open>SFD.__init__\<close>; its message interpolates the three shapes\<close>
  | ValueError_broadcast "nat list" "nat list"
      \<comment> \<open>operands could not be broadcast together\<close>
  | AxisError int nat
      \<comment> \<open>axis is out of bounds for array of dimension ndim\<close>

definition ebind :: "error + 'a \<Rightarrow> ('a \<Rightarrow> error + 'b) \<Rightarrow> error + 'b" where
  "ebind m f = (case m of Inl e \<Rightarrow> Inl e | Inr x \<Rightarrow> f x)"

text \<open>All multi-indices of a shape, in row-major order, and the offset of a multi-index.\<close>

fun indices :: "nat list \<Rightarrow> nat list list" where
  "indices [] = [[]]"
| "indices (n # ns) = concat (map (\<lambda>i. map ((#) i) (indices ns)) [0..<n])"

fun in_range :: "nat list \<Rightarrow> nat list \<Rightarrow> bool" where
  "in_range [] [] = True"
| "in_range (n # ns) (i # is) = (i < n \<and> in_range ns is)"
| "in_range _ _ = False"

fun ravel :: "nat list \<Rightarrow> nat list \<Rightarrow> nat" where
  "ravel (n # ns) (i # is) = i * prod_list ns + ravel ns is"
| "ravel _ _ = 0"

definition mk :: "nat list \<Rightarrow> (nat list \<Rightarrow> elem) \<Rightarrow> marray" where
  "mk sh f = \<lparr>shape = sh, data = map f (indices sh)\<rparr>"

text \<open>
  Reading an element. Every operation below reads only at multi-indices inside the shape
  of its operand; outside, the masked value is returned.
\<close>

definition item :: "marray \<Rightarrow> nat list \<Rightarrow> elem" where
  "item a idx = (if in_range (shape a) idx \<and> ravel (shape a) idx < length (data a)
               then data a ! ravel (shape a) idx else None)"

definition full :: "nat list \<Rightarrow> elem \<Rightarrow> marray" where
  "full sh c = \<lparr>shape = sh, data = replicate (prod_list sh) c\<rparr>"

subsection \<open>Axes\<close>

text \<open>
  \<open>normalize_axis_index\<close>: an axis of an array of \<open>ndim\<close> dimensions is an integer in
  \<open>[-ndim, ndim)\<close>, a negative one counting from the end; any other raises \<open>AxisError\<close>.
\<close>

definition normalize_axis_index :: "int \<Rightarrow> nat \<Rightarrow> error + nat" where
  "normalize_axis_index axis ndim =
     (if - int ndim \<le> axis \<and> axis < int ndim
      then Inr (nat (if axis < 0 then axis + int ndim else axis))
      else Inl (AxisError axis ndim))"

definition insert_at :: "nat \<Rightarrow> 'a \<Rightarrow> 'a list \<Rightarrow> 'a list" where
  "insert_at k x xs = take k xs @ x # drop k xs"

definition remove_at :: "nat \<Rightarrow> 'a list \<Rightarrow> 'a list" where
  "remove_at k xs = take k xs @ drop (Suc k) xs"

subsection \<open>Reductions of masked arrays\<close>

definition filled0 :: "elem \<Rightarrow> rat" where
  "filled0 x = (case x of None \<Rightarrow> 0 | Some v \<Rightarrow> v)"

definition count :: "elem list \<Rightarrow> nat" where
  "count xs = length (filter (\<lambda>x. x \<noteq> None) xs)"

text \<open>
  \<open>MaskedArray.sum\<close> along an axis: the sum of the entries with the masked ones filled with
  zero; the result is masked where every entry along the axis is masked. Along an axis of
  length zero the sum is zero, as it is for an array that carries no mask.
\<close>

definition msum :: "elem list \<Rightarrow> elem" where
  "msum xs = (if xs \<noteq> [] \<and> list_all (\<lambda>x. x = None) xs then None
              else Some (sum_list (map filled0 xs)))"

text \<open>
  \<open>MaskedArray.mean\<close> along an axis: the sum divided by the number of unmasked entries;
  the result is invalid where there is none (also for an axis of length zero).
\<close>

definition mmean :: "elem list \<Rightarrow> elem" where
  "mmean xs = (if count xs = 0 then None
               else Some (sum_list (map filled0 xs) / of_nat (count xs)))"

definition reduce_axis :: "(elem list \<Rightarrow> elem) \<Rightarrow> marray \<Rightarrow> int \<Rightarrow> error + marray" where
  "reduce_axis r a axis =
     (case normalize_axis_index axis (length (shape a)) of
        Inl e \<Rightarrow> Inl e
      | Inr k \<Rightarrow> Inr (mk (remove_at k (shape a))
                         (\<lambda>idx. r (map (\<lambda>j. item a (insert_at k j idx)) [0..<shape a ! k]))))"

definition ma_sum :: "marray \<Rightarrow> int \<Rightarrow> error + marray" where
  "ma_sum a axis = reduce_axis msum a axis"

definition ma_mean :: "marray \<Rightarrow> int \<Rightarrow> error + marray" where
  "ma_mean a axis = reduce_axis mmean a axis"

text \<open>\<open>np.expand_dims\<close>: a new axis of length one at position \<open>axis\<close> of the result.\<close>

definition expand_dims :: "marray \<Rightarrow> int \<Rightarrow> error + marray" where
  "expand_dims a axis =
     (case normalize_axis_index axis (length (shape a) + 1) of
        Inl e \<Rightarrow> Inl e
      | Inr k \<Rightarrow> Inr (mk (insert_at k 1 (shape a)) (\<lambda>idx. item a (remove_at k idx))))"

subsection \<open>Element-wise arithmetic with broadcasting\<close>

definition pad :: "nat \<Rightarrow> nat list \<Rightarrow> nat list" where
  "pad n sh = replicate (n - length sh) 1 @ sh"

definition bdim :: "nat \<Rightarrow> nat \<Rightarrow> nat option" where
  "bdim x y = (if x = y then Some x else if x = 1 then Some y
               else if y = 1 then Some x else None)"

definition broadcast_shapes :: "nat list \<Rightarrow> nat list \<Rightarrow> nat list option" where
  "broadcast_shapes xs ys =
     (let n = max (length xs) (length ys)
      in those (map2 bdim (pad n xs) (pad n ys)))"

text \<open>The index into an operand of shape \<open>sh\<close> for the index \<open>idx\<close> of the result.\<close>

definition bidx :: "nat list \<Rightarrow> nat list \<Rightarrow> nat list" where
  "bidx sh idx = map2 (\<lambda>n i. if n = 1 then 0 else i) sh (drop (length idx - length sh) idx)"

definition binop :: "(elem \<Rightarrow> elem \<Rightarrow> elem) \<Rightarrow> marray \<Rightarrow> marray \<Rightarrow> error + marray" where
  "binop f a b =
     (case broadcast_shapes (shape a) (shape b) of
        None \<Rightarrow> Inl (ValueError_broadcast (shape a) (shape b))
      | Some sh \<Rightarrow> Inr (mk sh (\<lambda>idx. f (item a (bidx (shape a) idx)) (item b (bidx (shape b) idx)))))"

text \<open>
  The result of \<open>+\<close>, \<open>-\<close>, \<open>*\<close> is masked where an operand is; the result of the division
  of masked arrays is masked also where the divisor is zero, and nothing is raised there.
\<close>

definition lift2 :: "(rat \<Rightarrow> rat \<Rightarrow> rat) \<Rightarrow> elem \<Rightarrow> elem \<Rightarrow> elem" where
  "lift2 f x y = (case x of None \<Rightarrow> None
                  | Some u \<Rightarrow> (case y of None \<Rightarrow> None | Some v \<Rightarrow> Some (f u v)))"

definition safe_divide :: "elem \<Rightarrow> elem \<Rightarrow> elem" where
  "safe_divide x y = (case x of None \<Rightarrow> None
                      | Some u \<Rightarrow> (case y of None \<Rightarrow> None
                                   | Some v \<Rightarrow> if v = 0 then None else Some (u / v)))"

definition ma_mul :: "marray \<Rightarrow> marray \<Rightarrow> error + marray" where
  "ma_mul a b = binop (lift2 (*)) a b"

definition ma_add :: "marray \<Rightarrow> marray \<Rightarrow> error + marray" where
  "ma_add a b = binop (lift2 (+)) a b"

definition ma_sub :: "marray \<Rightarrow> marray \<Rightarrow> error + marray" where
  "ma_sub a b = binop (lift2 (-)) a b"

definition ma_div :: "marray \<Rightarrow> marray \<Rightarrow> error + marray" where
  "ma_div a b = binop safe_divide a b"

section \<open>The class \<open>SFD\<close>\<close>

text \<open>
  The attributes of an instance. The four cache attributes are \<open>_flux0\<close>, \<open>_flux1\<close>,
  \<open>_flux3\<close>, \<open>_flux4\<close> in the source; an identifier can neither begin nor end with an underscore
  here, so \<open>_component\<close>, \<open>_calc_flux\<close>, \<open>component_\<close> and \<open>var_is_comp_\<close> are
  \<open>priv_component\<close>, \<open>priv_calc_flux\<close>, \<open>component_int\<close> and \<open>var_is_comp\<close>.
\<close>

record SFD =
  flow :: marray
  salinity :: marray
  cross_section :: marray
  time_axis :: int
  depth_axis :: int
  priv_flux0 :: "marray option"
  priv_flux1 :: "marray option"
  priv_flux3 :: "marray option"
  priv_flux4 :: "marray option"

text \<open>\<open>kwargs.get(key, default)\<close> on the keyword arguments, a dictionary.\<close>

definition kwargs_get :: "(string \<rightharpoonup> int) \<Rightarrow> string \<Rightarrow> int \<Rightarrow> int" where
  "kwargs_get kwargs key dflt = (case kwargs key of None \<Rightarrow> dflt | Some v \<Rightarrow> v)"

text \<open>
  \<open>SFD.__init__\<close>. The chained comparison \<open>a == b == c\<close> is \<open>a == b and b == c\<close>.
\<close>

definition init :: "marray \<Rightarrow> marray \<Rightarrow> marray \<Rightarrow> (string \<rightharpoonup> int) \<Rightarrow> error + SFD" where
  "init flow0 salinity0 cross_section0 kwargs =
     (if \<not> (shape flow0 = shape salinity0 \<and> shape salinity0 = shape cross_section0)
      then Inl (ValueError_shapes (shape flow0) (shape salinity0) (shape cross_section0))
      else Inr \<lparr>flow = flow0, salinity = salinity0, cross_section = cross_section0,
                time_axis = kwargs_get kwargs ''time_axis'' 0,
                depth_axis = kwargs_get kwargs ''depth_axis'' (- 1),
                priv_flux0 = None, priv_flux1 = None, priv_flux3 = None, priv_flux4 = None\<rparr>)"

subsection \<open>Matrix computations\<close>

definition avg_time :: "SFD \<Rightarrow> marray \<Rightarrow> error + marray" where
  "avg_time self variable = ma_mean variable (time_axis self)"

definition int_depth :: "SFD \<Rightarrow> marray \<Rightarrow> error + marray" where
  "int_depth self variable = ma_sum variable (depth_axis self)"

definition avg_time_int_depth :: "SFD \<Rightarrow> marray \<Rightarrow> error + marray" where
  "avg_time_int_depth self variable = ebind (int_depth self variable) (avg_time self)"

definition expand_time :: "SFD \<Rightarrow> marray \<Rightarrow> error + marray" where
  "expand_time self variable = expand_dims variable (time_axis self)"

definition expand_depth :: "SFD \<Rightarrow> marray \<Rightarrow> error + marray" where
  "expand_depth self variable = expand_dims variable (depth_axis self)"

subsection \<open>Flux components\<close>

text \<open>
  \<open>_component\<close>: \<open>func(variable * self.cross_section) / func(self.cross_section)\<close>, the
  left operand of the division evaluated first.
\<close>

definition priv_component ::
  "SFD \<Rightarrow> (marray \<Rightarrow> error + marray) \<Rightarrow> marray \<Rightarrow> error + marray" where
  "priv_component self func variable =
     ebind (ma_mul variable (cross_section self)) (\<lambda>p.
     ebind (func p) (\<lambda>num.
     ebind (func (cross_section self)) (\<lambda>den.
     ma_div num den)))"

definition component1 :: "SFD \<Rightarrow> marray \<Rightarrow> error + marray" where
  "component1 self variable = priv_component self (avg_time_int_depth self) variable"

definition component2 :: "SFD \<Rightarrow> marray \<Rightarrow> marray option \<Rightarrow> error + marray" where
  "component2 self variable comp1 =
     ebind (case comp1 of None \<Rightarrow> component1 self variable | Some c \<Rightarrow> Inr c) (\<lambda>comp1.
     ebind (priv_component self (int_depth self) variable) (\<lambda>c.
     ebind (expand_time self comp1) (\<lambda>e.
     ma_sub c e)))"

definition component_int ::
  "SFD \<Rightarrow> marray \<Rightarrow> marray option \<Rightarrow> marray option \<Rightarrow> error + marray" where
  "component_int self variable comp1 comp2 =
     ebind (case comp1 of None \<Rightarrow> component1 self variable | Some c \<Rightarrow> Inr c) (\<lambda>comp1.
     ebind (case comp2 of None \<Rightarrow> component2 self variable (Some comp1) | Some c \<Rightarrow> Inr c)
       (\<lambda>comp2.
     ebind (expand_time self comp1) (\<lambda>e.
     ebind (ma_add comp2 e) (\<lambda>s.
     ebind (expand_depth self s) (\<lambda>x.
     ma_sub variable x)))))"

definition component3 :: "SFD \<Rightarrow> marray \<Rightarrow> bool \<Rightarrow> error + marray" where
  "component3 self variable var_is_comp =
     ebind (if \<not> var_is_comp then component_int self variable None None else Inr variable)
       (\<lambda>variable.
     priv_component self (avg_time self) variable)"

definition component4 :: "SFD \<Rightarrow> marray \<Rightarrow> bool \<Rightarrow> marray option \<Rightarrow> error + marray" where
  "component4 self variable var_is_comp comp3 =
     ebind (if \<not> var_is_comp then component_int self variable None None else Inr variable)
       (\<lambda>variable.
     ebind (case comp3 of None \<Rightarrow> component3 self variable True | Some c \<Rightarrow> Inr c) (\<lambda>comp3.
     ebind (expand_time self comp3) (\<lambda>e.
     ma_sub variable e)))"

subsection \<open>Fluxes computations\<close>

text \<open>
  \<open>_calc_flux\<close>: \<open>f_comp(self.flow) * f_comp(self.salinity) * f_cross_section(self.cross_section)\<close>,
  evaluated from left to right.
\<close>

definition priv_calc_flux ::
  "SFD \<Rightarrow> (marray \<Rightarrow> error + marray) \<Rightarrow> (marray \<Rightarrow> error + marray) \<Rightarrow> error + marray" where
  "priv_calc_flux self f_comp f_cross_section =
     ebind (f_comp (flow self)) (\<lambda>a.
     ebind (f_comp (salinity self)) (\<lambda>b.
     ebind (ma_mul a b) (\<lambda>ab.
     ebind (f_cross_section (cross_section self)) (\<lambda>c.
     ma_mul ab c))))"

text \<open>
  The four properties read and write the instance: each returns its result (or the
  exception) and the instance after the access. An exception leaves the cache empty.
\<close>

definition memo ::
  "SFD \<Rightarrow> marray option \<Rightarrow> (marray \<Rightarrow> SFD) \<Rightarrow> error + marray \<Rightarrow> (error + marray) \<times> SFD" where
  "memo self cache store compute =
     (case cache of
        Some v \<Rightarrow> (Inr v, self)
      | None \<Rightarrow> (case compute of Inl e \<Rightarrow> (Inl e, self) | Inr v \<Rightarrow> (Inr v, store v)))"

text \<open>The right-hand sides of the four assignments to the cache attributes.\<close>

definition calc_flux1 :: "SFD \<Rightarrow> error + marray" where
  "calc_flux1 self = priv_calc_flux self (component1 self) (avg_time_int_depth self)"

definition calc_flux2 :: "SFD \<Rightarrow> error + marray" where
  "calc_flux2 self =
     ebind (priv_calc_flux self (\<lambda>v. component2 self v None) (int_depth self))
       (avg_time self)"

definition calc_flux3 :: "SFD \<Rightarrow> error + marray" where
  "calc_flux3 self =
     ebind (priv_calc_flux self (\<lambda>v. component3 self v False) (avg_time self))
       (int_depth self)"

definition calc_flux4 :: "SFD \<Rightarrow> error + marray" where
  "calc_flux4 self =
     ebind (priv_calc_flux self (\<lambda>v. component4 self v False None) Inr)
       (avg_time_int_depth self)"

text \<open>
  What an access gives: the cached value when there is one, else what the computation gives.
\<close>

abbreviation cache_or_compute :: "marray option \<Rightarrow> error + marray \<Rightarrow> error + marray" where
  "cache_or_compute cache compute \<equiv> (case cache of Some v \<Rightarrow> Inr v | None \<Rightarrow> compute)"

definition flux1 :: "SFD \<Rightarrow> (error + marray) \<times> SFD" where
  "flux1 self =
     memo self (priv_flux0 self) (\<lambda>v. self\<lparr>priv_flux0 := Some v\<rparr>) (calc_flux1 self)"

definition flux2 :: "SFD \<Rightarrow> (error + marray) \<times> SFD" where
  "flux2 self =
     memo self (priv_flux1 self) (\<lambda>v. self\<lparr>priv_flux1 := Some v\<rparr>) (calc_flux2 self)"

definition flux3 :: "SFD \<Rightarrow> (error + marray) \<times> SFD" where
  "flux3 self =
     memo self (priv_flux3 self) (\<lambda>v. self\<lparr>priv_flux3 := Some v\<rparr>) (calc_flux3 self)"

definition flux4 :: "SFD \<Rightarrow> (error + marray) \<times> SFD" where
  "flux4 self =
     memo self (priv_flux4 self) (\<lambda>v. self\<lparr>priv_flux4 := Some v\<rparr>) (calc_flux4 self)"

text \<open>\<open>fluxes\<close>: the tuple \<open>self.flux1, self.flux2, self.flux3, self.flux4\<close>, built in that order.\<close>

definition fluxes :: "SFD \<Rightarrow> (error + marray \<times> marray \<times> marray \<times> marray) \<times> SFD" where
  "fluxes self =
     (case flux1 self of
        (Inl e, s1) \<Rightarrow> (Inl e, s1)
      | (Inr f1, s1) \<Rightarrow>
     (case flux2 s1 of
        (Inl e, s2) \<Rightarrow> (Inl e, s2)
      | (Inr f2, s2) \<Rightarrow>
     (case flux3 s2 of
        (Inl e, s3) \<Rightarrow> (Inl e, s3)
      | (Inr f3, s3) \<Rightarrow>
     (case flux4 s3 of
        (Inl e, s4) \<Rightarrow> (Inl e, s4)
      | (Inr f4, s4) \<Rightarrow> (Inr (f1, f2, f3, f4), s4)))))"

section \<open>The reduction as the specification words it\<close>

text \<open>
  The specification asks of \<open>averageTimeIntegrateDepth\<close> that the field is summed over its
  depth axis and averaged over its time axis, the axis indices tracked after the first
  reduction has removed an axis: once the depth axis is gone, the time axis of the field
  is the axis before it if it came after the depth axis. This definition follows those
  words; \<open>avg_time_int_depth\<close> above follows the code.
\<close>

definition avg_time_int_depth_spec :: "int \<Rightarrow> int \<Rightarrow> marray \<Rightarrow> error + marray" where
  "avg_time_int_depth_spec t_axis d_axis variable =
     ebind (normalize_axis_index t_axis (length (shape variable))) (\<lambda>kt.
     ebind (normalize_axis_index d_axis (length (shape variable))) (\<lambda>kd.
     ebind (ma_sum variable (int kd)) (\<lambda>s.
     ma_mean s (int (if kd < kt then kt - 1 else kt)))))"

section \<open>The components and fluxes as sums\<close>

text \<open>
  For the proofs: what the components and the fluxes are, element by element, where no
  entry is masked and no divisor is zero. \<open>dense_on P a sh u\<close> says that the array \<open>a\<close> has
  the shape \<open>sh\<close> and, at every index that satisfies \<open>P\<close>, the unmasked element \<open>u idx\<close>.
\<close>

definition dense_on ::
  "(nat list \<Rightarrow> bool) \<Rightarrow> marray \<Rightarrow> nat list \<Rightarrow> (nat list \<Rightarrow> rat) \<Rightarrow> bool" where
  "dense_on P a sh u \<longleftrightarrow>
     shape a = sh \<and> (\<forall>idx. in_range sh idx \<and> P idx \<longrightarrow> item a idx = Some (u idx))"

text \<open>The indices whose entry \<open>k\<close> is the location \<open>s\<close>; none when \<open>G\<close> is false.\<close>

definition loc :: "bool \<Rightarrow> nat \<Rightarrow> nat \<Rightarrow> nat list \<Rightarrow> bool" where
  "loc G k s idx \<longleftrightarrow> G \<and> idx ! k = s"

definition sum_last :: "nat \<Rightarrow> (nat list \<Rightarrow> rat) \<Rightarrow> nat list \<Rightarrow> rat" where
  "sum_last n u idx = (\<Sum>j\<leftarrow>[0..<n]. u (idx @ [j]))"

definition mean_first :: "nat \<Rightarrow> (nat list \<Rightarrow> rat) \<Rightarrow> nat list \<Rightarrow> rat" where
  "mean_first n u idx = (\<Sum>j\<leftarrow>[0..<n]. u (j # idx)) / of_nat n"

definition val_component ::
  "((nat list \<Rightarrow> rat) \<Rightarrow> nat list \<Rightarrow> rat) \<Rightarrow> (nat list \<Rightarrow> rat) \<Rightarrow> (nat list \<Rightarrow> rat)
     \<Rightarrow> nat list \<Rightarrow> rat" where
  "val_component F a u idx = F (\<lambda>k. u k * a k) idx / F a idx"

definition val_comp1 :: "nat \<Rightarrow> nat \<Rightarrow> (nat list \<Rightarrow> rat) \<Rightarrow> (nat list \<Rightarrow> rat) \<Rightarrow> nat list \<Rightarrow> rat" where
  "val_comp1 T D a u = val_component (\<lambda>w. mean_first T (sum_last D w)) a u"

definition val_comp2 :: "nat \<Rightarrow> nat \<Rightarrow> (nat list \<Rightarrow> rat) \<Rightarrow> (nat list \<Rightarrow> rat) \<Rightarrow> nat list \<Rightarrow> rat" where
  "val_comp2 T D a u idx = val_component (sum_last D) a u idx - val_comp1 T D a u (tl idx)"

definition val_int :: "nat \<Rightarrow> nat \<Rightarrow> (nat list \<Rightarrow> rat) \<Rightarrow> (nat list \<Rightarrow> rat) \<Rightarrow> nat list \<Rightarrow> rat" where
  "val_int T D a u idx =
     u idx - (val_comp2 T D a u (butlast idx) + val_comp1 T D a u (tl (butlast idx)))"

definition val_comp3 :: "nat \<Rightarrow> nat \<Rightarrow> (nat list \<Rightarrow> rat) \<Rightarrow> (nat list \<Rightarrow> rat) \<Rightarrow> nat list \<Rightarrow> rat" where
  "val_comp3 T D a u = val_component (mean_first T) a (val_int T D a u)"

definition val_comp4 :: "nat \<Rightarrow> nat \<Rightarrow> (nat list \<Rightarrow> rat) \<Rightarrow> (nat list \<Rightarrow> rat) \<Rightarrow> nat list \<Rightarrow> rat" where
  "val_comp4 T D a u idx = val_int T D a u idx - val_comp3 T D a u (tl idx)"

definition val_flux1 ::
  "nat \<Rightarrow> nat \<Rightarrow> (nat list \<Rightarrow> rat) \<Rightarrow> (nat list \<Rightarrow> rat) \<Rightarrow> (nat list \<Rightarrow> rat) \<Rightarrow> nat list \<Rightarrow> rat" where
  "val_flux1 T D a u v idx =
     val_comp1 T D a u idx * val_comp1 T D a v idx * mean_first T (sum_last D a) idx"

definition val_flux2 ::
  "nat \<Rightarrow> nat \<Rightarrow> (nat list \<Rightarrow> rat) \<Rightarrow> (nat list \<Rightarrow> rat) \<Rightarrow> (nat list \<Rightarrow> rat) \<Rightarrow> nat list \<Rightarrow> rat" where
  "val_flux2 T D a u v =
     mean_first T (\<lambda>idx. val_comp2 T D a u idx * val_comp2 T D a v idx * sum_last D a idx)"

definition val_flux3 ::
  "nat \<Rightarrow> nat \<Rightarrow> (nat list \<Rightarrow> rat) \<Rightarrow> (nat list \<Rightarrow> rat) \<Rightarrow> (nat list \<Rightarrow> rat) \<Rightarrow> nat list \<Rightarrow> rat" where
  "val_flux3 T D a u v =
     sum_last D (\<lambda>idx. val_comp3 T D a u idx * val_comp3 T D a v idx * mean_first T a idx)"

definition val_flux4 ::
  "nat \<Rightarrow> nat \<Rightarrow> (nat list \<Rightarrow> rat) \<Rightarrow> (nat list \<Rightarrow> rat) \<Rightarrow> (nat list \<Rightarrow> rat) \<Rightarrow> nat list \<Rightarrow> rat" where
  "val_flux4 T D a u v =
     mean_first T (sum_last D (\<lambda>idx. val_comp4 T D a u idx * val_comp4 T D a v idx * a idx))"


section \<open>The total transport\<close>



section \<open>Concrete inputs\<close>

definition arr :: "nat list \<Rightarrow> elem list \<Rightarrow> marray" where
  "arr sh xs = \<lparr>shape = sh, data = xs\<rparr>"

definition new_SFD :: "marray \<Rightarrow> marray \<Rightarrow> marray \<Rightarrow> int \<Rightarrow> int \<Rightarrow> SFD" where
  "new_SFD f s c t_axis d_axis =
     \<lparr>flow = f, salinity = s, cross_section = c, time_axis = t_axis, depth_axis = d_axis,
      priv_flux0 = None, priv_flux1 = None, priv_flux3 = None, priv_flux4 = None\<rparr>"

text \<open>A field of two time steps, one location and two depths, and an instance on it.\<close>

definition ex_flow :: marray where
  "ex_flow = arr [2, 1, 2] [Some 1, Some 2, Some 3, Some 5]"

definition ex_salinity :: marray where
  "ex_salinity = arr [2, 1, 2] [Some 2, Some 7, Some 1, Some 8]"

definition ex_area :: marray where
  "ex_area = arr [2, 1, 2] [Some 1, Some 1, Some 1, Some 2]"

definition ex_SFD :: SFD where
  "ex_SFD = new_SFD ex_flow ex_salinity ex_area 0 (- 1)"

text \<open>The same instance with a value already in the cache of \<open>flux1\<close>.\<close>

definition ex_SFD_cached :: SFD where
  "ex_SFD_cached = ex_SFD\<lparr>priv_flux0 := Some (arr [1] [Some 0])\<rparr>"

text \<open>
  A field laid out as (depth, time, space), two of each, and an instance told so:
  \<open>SFD(field, field, field, time_axis=1, depth_axis=0)\<close>.
\<close>

definition ex_dts :: marray where
  "ex_dts = arr [2, 2, 2] [Some 1, Some 2, Some 3, Some 4, Some 10, Some 20, Some 30, Some 40]"

definition ex_dts_SFD :: SFD where
  "ex_dts_SFD = new_SFD ex_dts ex_dts ex_dts 1 0"


text \<open>
  An area that is zero over the whole depth at the first time step and masked over the
  whole depth at the second one.
\<close>

definition ex_zero_area :: marray where
  "ex_zero_area = arr [2, 1, 2] [Some 0, Some 0, None, None]"

definition ex_zero_SFD :: SFD where
  "ex_zero_SFD = new_SFD ex_flow ex_salinity ex_zero_area 0 (- 1)"

text \<open>
  The instance \<open>ex_SFD\<close> with other depth axes: 2, which names the depth axis of the fields
  but no axis of an array that has lost its time axis, and 7, which names no axis at all.
\<close>

definition ex_axis2_SFD :: SFD where
  "ex_axis2_SFD = new_SFD ex_flow ex_salinity ex_area 0 2"

definition ex_axis7_SFD :: SFD where
  "ex_axis7_SFD = new_SFD ex_flow ex_salinity ex_area 0 7"

text \<open>An instance whose two axes are the same axis: \<open>SFD(field, field, field, time_axis=1, depth_axis=1)\<close>.\<close>

definition ex_equal_SFD :: SFD where
  "ex_equal_SFD = new_SFD ex_dts ex_dts ex_dts 1 1"

section \<open>Properties of the array operations\<close>

subsection \<open>Indices and elements\<close>

lemma sum_list_const_upt: "sum_list (map (\<lambda>i. (c::nat)) [0..<n]) = n * c"
  by (induction n) auto

lemma length_indices: "length (indices sh) = prod_list sh"
  by (induction sh) (auto simp: length_concat comp_def sum_list_const_upt)

lemma in_range_Nil_iff: "in_range [] idx \<longleftrightarrow> idx = []"
  by (cases idx) auto

lemma in_range_Cons_iff:
  "in_range (n # ns) idx \<longleftrightarrow> (\<exists>i js. idx = i # js \<and> i < n \<and> in_range ns js)"
  by (cases idx) auto

lemma set_indices: "idx \<in> set (indices sh) \<longleftrightarrow> in_range sh idx"
proof (induction sh arbitrary: idx)
  case Nil
  show ?case by (auto simp: in_range_Nil_iff)
next
  case (Cons n ns)
  have "idx \<in> set (indices (n # ns)) \<longleftrightarrow> (\<exists>i js. idx = i # js \<and> i < n \<and> js \<in> set (indices ns))"
    by auto
  then show ?case by (simp add: Cons.IH in_range_Cons_iff)
qed

lemma concat_nth_block:
  "\<forall>x \<in> set xs. length (g x) = m \<Longrightarrow> i < length xs \<Longrightarrow> k < m
     \<Longrightarrow> concat (map g xs) ! (i * m + k) = g (xs ! i) ! k"
proof (induction xs arbitrary: i)
  case Nil
  then show ?case by simp
next
  case (Cons x xs)
  show ?case
  proof (cases i)
    case 0
    with Cons.prems show ?thesis by (simp add: nth_append)
  next
    case (Suc j)
    with Cons.prems have "concat (map g xs) ! (j * m + k) = g (xs ! j) ! k"
      by (intro Cons.IH) auto
    with Suc Cons.prems show ?thesis by (simp add: nth_append)
  qed
qed

lemma nth_indices:
  "in_range sh idx \<Longrightarrow> ravel sh idx < prod_list sh \<and> indices sh ! ravel sh idx = idx"
proof (induction sh arbitrary: idx)
  case Nil
  then show ?case by (simp add: in_range_Nil_iff)
next
  case (Cons n ns)
  then obtain i js where idx: "idx = i # js" and i: "i < n" and js: "in_range ns js"
    by (auto simp: in_range_Cons_iff)
  from Cons.IH [OF js] have r: "ravel ns js < prod_list ns" and e: "indices ns ! ravel ns js = js"
    by auto
  have "i * prod_list ns + ravel ns js < Suc i * prod_list ns"
    using r by simp
  also have "\<dots> \<le> n * prod_list ns"
    using i by (intro mult_le_mono1) simp
  finally have lt: "ravel (n # ns) idx < prod_list (n # ns)"
    by (simp add: idx)
  have "concat (map (\<lambda>i. map ((#) i) (indices ns)) [0..<n]) ! (i * prod_list ns + ravel ns js)
          = map ((#) i) (indices ns) ! ravel ns js"
    using concat_nth_block [of "[0..<n]" "\<lambda>i. map ((#) i) (indices ns)" "prod_list ns" i "ravel ns js"]
      i r by (simp add: length_indices)
  also have "\<dots> = idx"
    using r e by (simp add: length_indices idx)
  finally show ?case using lt by (simp add: idx)
qed

lemma shape_mk: "shape (mk sh f) = sh"
  by (simp add: mk_def)

lemma item_mk: "in_range sh idx \<Longrightarrow> item (mk sh f) idx = f idx"
  using nth_indices [of sh idx] by (simp add: item_def mk_def length_indices)

lemma mk_cong: "(\<And>idx. in_range sh idx \<Longrightarrow> f idx = g idx) \<Longrightarrow> mk sh f = mk sh g"
  by (simp add: mk_def set_indices)

lemma full_eq_mk: "full sh c = mk sh (\<lambda>_. c)"
  by (simp add: full_def mk_def length_indices map_replicate_const)

lemma in_range_length: "in_range sh idx \<Longrightarrow> length idx = length sh"
  by (induction sh idx rule: in_range.induct) auto

lemma in_range_snoc_iff:
  "in_range (sh @ [n]) idx \<longleftrightarrow> (\<exists>js i. idx = js @ [i] \<and> i < n \<and> in_range sh js)"
proof (induction sh arbitrary: idx)
  case Nil
  show ?case by (auto simp: in_range_Cons_iff in_range_Nil_iff)
next
  case (Cons m ms)
  show ?case
  proof
    assume "in_range ((m # ms) @ [n]) idx"
    then obtain k ks where idx: "idx = k # ks" and k: "k < m" and ks: "in_range (ms @ [n]) ks"
      by (auto simp: in_range_Cons_iff)
    from ks obtain js i where "ks = js @ [i]" "i < n" "in_range ms js"
      by (auto simp: Cons.IH)
    with idx k have "idx = (k # js) @ [i] \<and> i < n \<and> in_range (m # ms) (k # js)"
      by simp
    then show "\<exists>js i. idx = js @ [i] \<and> i < n \<and> in_range (m # ms) js"
      by blast
  next
    assume "\<exists>js i. idx = js @ [i] \<and> i < n \<and> in_range (m # ms) js"
    then obtain js i where idx: "idx = js @ [i]" and i: "i < n" and js: "in_range (m # ms) js"
      by blast
    from js obtain k ks where "js = k # ks" "k < m" "in_range ms ks"
      by (auto simp: in_range_Cons_iff)
    with idx i show "in_range ((m # ms) @ [n]) idx"
      by (auto simp: Cons.IH)
  qed
qed

subsection \<open>The operations at the first and the last axis\<close>

lemma normalize_axis_index_first: "normalize_axis_index 0 (Suc n) = Inr 0"
  by (simp add: normalize_axis_index_def)

lemma normalize_axis_index_last: "normalize_axis_index (- 1) (Suc n) = Inr n"
  by (simp add: normalize_axis_index_def)

lemma reduce_axis_last:
  assumes "shape a = sh @ [n]"
  shows "reduce_axis r a (- 1) = Inr (mk sh (\<lambda>idx. r (map (\<lambda>j. item a (idx @ [j])) [0..<n])))"
proof -
  have "mk sh (\<lambda>idx. r (map (\<lambda>j. item a (insert_at (length sh) j idx)) [0..<n]))
        = mk sh (\<lambda>idx. r (map (\<lambda>j. item a (idx @ [j])) [0..<n]))"
    by (rule mk_cong) (simp add: insert_at_def in_range_length)
  then show ?thesis
    using assms by (simp add: reduce_axis_def normalize_axis_index_last remove_at_def nth_append)
qed

lemma reduce_axis_first:
  assumes "shape a = n # sh"
  shows "reduce_axis r a 0 = Inr (mk sh (\<lambda>idx. r (map (\<lambda>j. item a (j # idx)) [0..<n])))"
  using assms normalize_axis_index_first [of "length sh"]
  by (simp add: reduce_axis_def remove_at_def insert_at_def)

lemma expand_dims_first:
  "expand_dims a 0 = Inr (mk (1 # shape a) (\<lambda>idx. item a (tl idx)))"
  using normalize_axis_index_first [of "length (shape a)"]
  by (simp add: expand_dims_def remove_at_def insert_at_def drop_Suc)

lemma expand_dims_last:
  "expand_dims a (- 1) = Inr (mk (shape a @ [1]) (\<lambda>idx. item a (butlast idx)))"
proof -
  have "mk (shape a @ [1]) (\<lambda>idx. item a (remove_at (length (shape a)) idx))
        = mk (shape a @ [1]) (\<lambda>idx. item a (butlast idx))"
    by (rule mk_cong) (auto simp: remove_at_def in_range_snoc_iff dest: in_range_length)
  then show ?thesis
    using normalize_axis_index_last [of "length (shape a)"]
    by (simp add: expand_dims_def insert_at_def)
qed

lemma bdim_same: "bdim n n = Some n"
  by (simp add: bdim_def)

lemma bdim_one: "bdim n (Suc 0) = Some n"
  by (simp add: bdim_def)

lemma those_bdim_same: "those (map2 bdim sh sh) = Some sh"
  by (induction sh) (simp_all add: bdim_same)

lemma those_snoc: "those xs = Some ys \<Longrightarrow> those (xs @ [Some y]) = Some (ys @ [y])"
  by (induction xs arbitrary: ys) (auto split: option.splits)

lemma broadcast_shapes_same: "broadcast_shapes sh sh = Some sh"
  by (simp add: broadcast_shapes_def pad_def those_bdim_same)

lemma broadcast_shapes_first: "broadcast_shapes (n # sh) (Suc 0 # sh) = Some (n # sh)"
  by (simp add: broadcast_shapes_def pad_def those_bdim_same bdim_one)

lemma broadcast_shapes_last: "broadcast_shapes (sh @ [n]) (sh @ [Suc 0]) = Some (sh @ [n])"
  using those_snoc [OF those_bdim_same, of sh n]
  by (simp add: broadcast_shapes_def pad_def bdim_one)

lemma map2_bidx_same:
  "in_range sh idx \<Longrightarrow> map2 (\<lambda>n i. if n = Suc 0 then 0 else i) sh idx = idx"
  by (induction sh idx rule: in_range.induct) auto

lemma bidx_same: "in_range sh idx \<Longrightarrow> bidx sh idx = idx"
  using in_range_length [of sh idx] by (simp add: bidx_def map2_bidx_same)

lemma bidx_first:
  assumes "in_range (n # sh) idx"
  shows "bidx (Suc 0 # sh) idx = 0 # tl idx"
proof -
  from assms obtain i js where idx: "idx = i # js" and js: "in_range sh js"
    by (auto simp: in_range_Cons_iff)
  show ?thesis
    using in_range_length [OF js] map2_bidx_same [OF js] by (simp add: bidx_def idx)
qed

lemma bidx_last:
  assumes "in_range (sh @ [n]) idx"
  shows "bidx (sh @ [Suc 0]) idx = butlast idx @ [0]"
proof -
  from assms obtain js i where idx: "idx = js @ [i]" and js: "in_range sh js"
    by (auto simp: in_range_snoc_iff)
  show ?thesis
    using in_range_length [OF js] map2_bidx_same [OF js] by (simp add: bidx_def idx)
qed

lemma binop_same:
  assumes "shape a = sh" and "shape b = sh"
  shows "binop f a b = Inr (mk sh (\<lambda>idx. f (item a idx) (item b idx)))"
proof -
  have "mk sh (\<lambda>idx. f (item a (bidx sh idx)) (item b (bidx sh idx)))
        = mk sh (\<lambda>idx. f (item a idx) (item b idx))"
    by (rule mk_cong) (simp add: bidx_same)
  then show ?thesis
    using assms by (simp add: binop_def broadcast_shapes_same)
qed

lemma binop_first:
  assumes "shape a = n # sh" and "shape b = 1 # sh"
  shows "binop f a b = Inr (mk (n # sh) (\<lambda>idx. f (item a idx) (item b (0 # tl idx))))"
proof -
  have "mk (n # sh) (\<lambda>idx. f (item a (bidx (n # sh) idx)) (item b (bidx (1 # sh) idx)))
        = mk (n # sh) (\<lambda>idx. f (item a idx) (item b (0 # tl idx)))"
    by (rule mk_cong) (simp add: bidx_same bidx_first)
  then show ?thesis
    using assms by (simp add: binop_def broadcast_shapes_first)
qed

lemma binop_last:
  assumes "shape a = sh @ [n]" and "shape b = sh @ [1]"
  shows "binop f a b = Inr (mk (sh @ [n]) (\<lambda>idx. f (item a idx) (item b (butlast idx @ [0]))))"
proof -
  have "mk (sh @ [n]) (\<lambda>idx. f (item a (bidx (sh @ [n]) idx)) (item b (bidx (sh @ [1]) idx)))
        = mk (sh @ [n]) (\<lambda>idx. f (item a idx) (item b (butlast idx @ [0])))"
    by (rule mk_cong) (simp add: bidx_same bidx_last)
  then show ?thesis
    using assms by (simp add: binop_def broadcast_shapes_last)
qed

subsection \<open>Small facts\<close>

lemma shape_full: "shape (full sh c) = sh"
  by (simp add: full_def)

lemma reduce_axis_out_of_range:
  "\<not> (- int (length (shape x)) \<le> axis \<and> axis < int (length (shape x)))
     \<Longrightarrow> reduce_axis r x axis = Inl (AxisError axis (length (shape x)))"
  by (simp add: reduce_axis_def normalize_axis_index_def)

lemma ebind_Inl: "ebind (Inl e) f = Inl e"
  by (simp add: ebind_def)

lemma ebind_Inr: "ebind (Inr x) f = f x"
  by (simp add: ebind_def)

section \<open>The operations on unmasked entries\<close>

lemma dense_onI:
  "shape a = sh \<Longrightarrow> (\<And>idx. in_range sh idx \<Longrightarrow> P idx \<Longrightarrow> item a idx = Some (u idx))
     \<Longrightarrow> dense_on P a sh u"
  by (simp add: dense_on_def)

lemma dense_on_shape: "dense_on P a sh u \<Longrightarrow> shape a = sh"
  by (simp add: dense_on_def)

lemma dense_on_item: "dense_on P a sh u \<Longrightarrow> in_range sh idx \<Longrightarrow> P idx \<Longrightarrow> item a idx = Some (u idx)"
  by (simp add: dense_on_def)

lemma dense_on_mk:
  "(\<And>idx. in_range sh idx \<Longrightarrow> P idx \<Longrightarrow> f idx = Some (u idx)) \<Longrightarrow> dense_on P (mk sh f) sh u"
  by (simp add: dense_on_def shape_mk item_mk)

lemma dense_on_weaken:
  "dense_on P a sh u \<Longrightarrow> (\<And>idx. in_range sh idx \<Longrightarrow> Q idx \<Longrightarrow> P idx \<and> v idx = u idx)
     \<Longrightarrow> dense_on Q a sh v"
  by (simp add: dense_on_def)

lemma msum_Some: "msum (map (\<lambda>j. Some (g j)) js) = Some (\<Sum>j\<leftarrow>js. g j)"
  by (cases js) (simp_all add: msum_def filled0_def comp_def)

lemma count_Some: "count (map (\<lambda>j. Some (g j)) js) = length js"
  by (induction js) (simp_all add: count_def)

lemma mmean_Some:
  "js \<noteq> [] \<Longrightarrow> mmean (map (\<lambda>j. Some (g j)) js) = Some ((\<Sum>j\<leftarrow>js. g j) / of_nat (length js))"
  by (simp add: mmean_def count_Some filled0_def comp_def)

lemma dense_sum_last:
  assumes a: "dense_on P a (sh @ [n]) u"
    and pq: "\<And>idx j. in_range sh idx \<Longrightarrow> Q idx \<Longrightarrow> j < n \<Longrightarrow> P (idx @ [j])"
  shows "\<exists>r. ma_sum a (- 1) = Inr r \<and> dense_on Q r sh (sum_last n u)"
proof -
  let ?r = "mk sh (\<lambda>idx. msum (map (\<lambda>j. item a (idx @ [j])) [0..<n]))"
  have "ma_sum a (- 1) = Inr ?r"
    using dense_on_shape [OF a] by (simp add: ma_sum_def reduce_axis_last)
  moreover have "dense_on Q ?r sh (sum_last n u)"
  proof (rule dense_on_mk)
    fix idx assume idx: "in_range sh idx" "Q idx"
    have "map (\<lambda>j. item a (idx @ [j])) [0..<n] = map (\<lambda>j. Some (u (idx @ [j]))) [0..<n]"
      using idx pq by (intro map_cong refl dense_on_item [OF a]) (auto simp: in_range_snoc_iff)
    then show "msum (map (\<lambda>j. item a (idx @ [j])) [0..<n]) = Some (sum_last n u idx)"
      by (simp only: msum_Some sum_last_def)
  qed
  ultimately show ?thesis by blast
qed

lemma dense_mean_first:
  assumes a: "dense_on P a (n # sh) u"
    and pq: "\<And>idx j. in_range sh idx \<Longrightarrow> Q idx \<Longrightarrow> j < n \<Longrightarrow> P (j # idx)"
    and n: "\<And>idx. in_range sh idx \<Longrightarrow> Q idx \<Longrightarrow> 0 < n"
  shows "\<exists>r. ma_mean a 0 = Inr r \<and> dense_on Q r sh (mean_first n u)"
proof -
  let ?r = "mk sh (\<lambda>idx. mmean (map (\<lambda>j. item a (j # idx)) [0..<n]))"
  have "ma_mean a 0 = Inr ?r"
    using dense_on_shape [OF a] by (simp add: ma_mean_def reduce_axis_first)
  moreover have "dense_on Q ?r sh (mean_first n u)"
  proof (rule dense_on_mk)
    fix idx assume idx: "in_range sh idx" "Q idx"
    have "map (\<lambda>j. item a (j # idx)) [0..<n] = map (\<lambda>j. Some (u (j # idx))) [0..<n]"
      using idx pq by (intro map_cong refl dense_on_item [OF a]) auto
    moreover have "mmean (map (\<lambda>j. Some (u (j # idx))) [0..<n]) = Some (mean_first n u idx)"
      using mmean_Some [of "[0..<n]" "\<lambda>j. u (j # idx)"] n [OF idx]
      by (simp add: mean_first_def)
    ultimately show "mmean (map (\<lambda>j. item a (j # idx)) [0..<n]) = Some (mean_first n u idx)"
      by (simp only:)
  qed
  ultimately show ?thesis by blast
qed

lemma dense_expand_first:
  assumes a: "dense_on P a sh u"
    and pq: "\<And>idx. in_range (1 # sh) idx \<Longrightarrow> Q idx \<Longrightarrow> P (tl idx)"
  shows "\<exists>r. expand_dims a 0 = Inr r \<and> dense_on Q r (1 # sh) (\<lambda>idx. u (tl idx))"
proof -
  have "dense_on Q (mk (1 # sh) (\<lambda>idx. item a (tl idx))) (1 # sh) (\<lambda>idx. u (tl idx))"
  proof (rule dense_on_mk)
    fix idx assume idx: "in_range (1 # sh) idx" "Q idx"
    then have "in_range sh (tl idx)"
      by (auto simp: in_range_Cons_iff)
    then show "item a (tl idx) = Some (u (tl idx))"
      using pq [OF idx] by (intro dense_on_item [OF a])
  qed
  then show ?thesis
    using dense_on_shape [OF a] by (simp add: expand_dims_first)
qed

lemma dense_expand_last:
  assumes a: "dense_on P a sh u"
    and pq: "\<And>idx. in_range (sh @ [1]) idx \<Longrightarrow> Q idx \<Longrightarrow> P (butlast idx)"
  shows "\<exists>r. expand_dims a (- 1) = Inr r \<and> dense_on Q r (sh @ [1]) (\<lambda>idx. u (butlast idx))"
proof -
  have "dense_on Q (mk (sh @ [1]) (\<lambda>idx. item a (butlast idx))) (sh @ [1]) (\<lambda>idx. u (butlast idx))"
  proof (rule dense_on_mk)
    fix idx assume idx: "in_range (sh @ [1]) idx" "Q idx"
    then have "in_range sh (butlast idx)"
      by (auto simp: in_range_snoc_iff)
    then show "item a (butlast idx) = Some (u (butlast idx))"
      using pq [OF idx] by (intro dense_on_item [OF a])
  qed
  then show ?thesis
    using dense_on_shape [OF a] by (simp add: expand_dims_last)
qed

lemma dense_binop:
  assumes a: "dense_on P a sh u" and b: "dense_on P b sh v"
  shows "\<exists>r. binop (lift2 f) a b = Inr r \<and> dense_on P r sh (\<lambda>idx. f (u idx) (v idx))"
proof -
  have "dense_on P (mk sh (\<lambda>idx. lift2 f (item a idx) (item b idx))) sh (\<lambda>idx. f (u idx) (v idx))"
    by (rule dense_on_mk) (simp add: dense_on_item [OF a] dense_on_item [OF b] lift2_def)
  then show ?thesis
    using dense_on_shape [OF a] dense_on_shape [OF b] by (simp add: binop_same)
qed

lemma dense_div:
  assumes a: "dense_on P a sh u" and b: "dense_on P b sh v"
    and nz: "\<And>idx. in_range sh idx \<Longrightarrow> P idx \<Longrightarrow> v idx \<noteq> 0"
  shows "\<exists>r. ma_div a b = Inr r \<and> dense_on P r sh (\<lambda>idx. u idx / v idx)"
proof -
  have "dense_on P (mk sh (\<lambda>idx. safe_divide (item a idx) (item b idx))) sh (\<lambda>idx. u idx / v idx)"
    by (rule dense_on_mk) (simp add: dense_on_item [OF a] dense_on_item [OF b] safe_divide_def nz)
  then show ?thesis
    using dense_on_shape [OF a] dense_on_shape [OF b] by (simp add: ma_div_def binop_same)
qed

lemma dense_binop_first:
  assumes a: "dense_on P a (n # sh) u" and b: "dense_on Q b (1 # sh) v"
    and pq: "\<And>idx. in_range (n # sh) idx \<Longrightarrow> P idx \<Longrightarrow> Q (0 # tl idx)"
  shows "\<exists>r. binop (lift2 f) a b = Inr r
           \<and> dense_on P r (n # sh) (\<lambda>idx. f (u idx) (v (0 # tl idx)))"
proof -
  have "dense_on P (mk (n # sh) (\<lambda>idx. lift2 f (item a idx) (item b (0 # tl idx)))) (n # sh)
          (\<lambda>idx. f (u idx) (v (0 # tl idx)))"
  proof (rule dense_on_mk)
    fix idx assume idx: "in_range (n # sh) idx" "P idx"
    then have "in_range (1 # sh) (0 # tl idx)"
      by (auto simp: in_range_Cons_iff)
    then have "item b (0 # tl idx) = Some (v (0 # tl idx))"
      using pq [OF idx] by (intro dense_on_item [OF b])
    then show "lift2 f (item a idx) (item b (0 # tl idx)) = Some (f (u idx) (v (0 # tl idx)))"
      using idx by (simp add: dense_on_item [OF a] lift2_def)
  qed
  then show ?thesis
    using dense_on_shape [OF a] dense_on_shape [OF b] by (simp add: binop_first)
qed

lemma dense_binop_last:
  assumes a: "dense_on P a (sh @ [n]) u" and b: "dense_on Q b (sh @ [1]) v"
    and pq: "\<And>idx. in_range (sh @ [n]) idx \<Longrightarrow> P idx \<Longrightarrow> Q (butlast idx @ [0])"
  shows "\<exists>r. binop (lift2 f) a b = Inr r
           \<and> dense_on P r (sh @ [n]) (\<lambda>idx. f (u idx) (v (butlast idx @ [0])))"
proof -
  have "dense_on P (mk (sh @ [n]) (\<lambda>idx. lift2 f (item a idx) (item b (butlast idx @ [0]))))
          (sh @ [n]) (\<lambda>idx. f (u idx) (v (butlast idx @ [0])))"
  proof (rule dense_on_mk)
    fix idx assume idx: "in_range (sh @ [n]) idx" "P idx"
    then have "in_range (sh @ [1]) (butlast idx @ [0])"
      by (auto simp: in_range_snoc_iff)
    then have "item b (butlast idx @ [0]) = Some (v (butlast idx @ [0]))"
      using pq [OF idx] by (intro dense_on_item [OF b])
    then show "lift2 f (item a idx) (item b (butlast idx @ [0]))
        = Some (f (u idx) (v (butlast idx @ [0])))"
      using idx by (simp add: dense_on_item [OF a] lift2_def)
  qed
  then show ?thesis
    using dense_on_shape [OF a] dense_on_shape [OF b] by (simp add: binop_last)
qed

section \<open>The methods on unmasked entries, for the default axes\<close>

lemmas loc_simps = loc_def in_range_Cons_iff in_range_Nil_iff

lemma int_depth_dense3:
  assumes d: "depth_axis self = - 1" and x: "dense_on (loc G 1 s) x [T, S, D] u"
  shows "\<exists>r. int_depth self x = Inr r \<and> dense_on (loc G 1 s) r [T, S] (sum_last D u)"
proof -
  have "dense_on (loc G 1 s) x ([T, S] @ [D]) u"
    using x by simp
  then show ?thesis
    unfolding int_depth_def d by (rule dense_sum_last) (auto simp: loc_simps)
qed

lemma int_depth_dense2:
  assumes d: "depth_axis self = - 1" and x: "dense_on (loc G 0 s) x [S, D] u"
  shows "\<exists>r. int_depth self x = Inr r \<and> dense_on (loc G 0 s) r [S] (sum_last D u)"
proof -
  have "dense_on (loc G 0 s) x ([S] @ [D]) u"
    using x by simp
  then show ?thesis
    unfolding int_depth_def d by (rule dense_sum_last) (auto simp: loc_simps)
qed

lemma avg_time_dense3:
  assumes t: "time_axis self = 0" and x: "dense_on (loc G 1 s) x [T, S, D] u"
    and T: "G \<Longrightarrow> 0 < T"
  shows "\<exists>r. avg_time self x = Inr r \<and> dense_on (loc G 0 s) r [S, D] (mean_first T u)"
  unfolding avg_time_def t using x
  by (rule dense_mean_first) (auto simp: loc_simps T)

lemma avg_time_dense2:
  assumes t: "time_axis self = 0" and x: "dense_on (loc G 1 s) x [T, S] u"
    and T: "G \<Longrightarrow> 0 < T"
  shows "\<exists>r. avg_time self x = Inr r \<and> dense_on (loc G 0 s) r [S] (mean_first T u)"
  unfolding avg_time_def t using x
  by (rule dense_mean_first) (auto simp: loc_simps T)

lemma avg_time_int_depth_dense:
  assumes t: "time_axis self = 0" and d: "depth_axis self = - 1"
    and x: "dense_on (loc G 1 s) x [T, S, D] u" and T: "G \<Longrightarrow> 0 < T"
  shows "\<exists>r. avg_time_int_depth self x = Inr r
           \<and> dense_on (loc G 0 s) r [S] (mean_first T (sum_last D u))"
proof -
  from int_depth_dense3 [OF d x] obtain y
    where y: "int_depth self x = Inr y" "dense_on (loc G 1 s) y [T, S] (sum_last D u)"
    by blast
  from avg_time_dense2 [OF t y(2) T] show ?thesis
    by (simp add: avg_time_int_depth_def y(1) ebind_Inr)
qed

lemma expand_time_dense1:
  assumes t: "time_axis self = 0" and x: "dense_on (loc G 0 s) x [S] u"
  shows "\<exists>r. expand_time self x = Inr r \<and> dense_on (loc G 1 s) r [1, S] (\<lambda>idx. u (tl idx))"
  unfolding expand_time_def t using x
  by (rule dense_expand_first) (auto simp: loc_simps)

lemma expand_time_dense2:
  assumes t: "time_axis self = 0" and x: "dense_on (loc G 0 s) x [S, D] u"
  shows "\<exists>r. expand_time self x = Inr r \<and> dense_on (loc G 1 s) r [1, S, D] (\<lambda>idx. u (tl idx))"
  unfolding expand_time_def t using x
  by (rule dense_expand_first) (auto simp: loc_simps)

lemma expand_depth_dense2:
  assumes d: "depth_axis self = - 1" and x: "dense_on (loc G 1 s) x [T, S] u"
  shows "\<exists>r. expand_depth self x = Inr r
           \<and> dense_on (loc G 1 s) r [T, S, 1] (\<lambda>idx. u (butlast idx))"
proof -
  have "\<exists>r. expand_dims x (- 1) = Inr r
          \<and> dense_on (loc G 1 s) r ([T, S] @ [1]) (\<lambda>idx. u (butlast idx))"
    using x by (rule dense_expand_last) (auto simp: loc_simps)
  then show ?thesis
    by (simp add: expand_depth_def d)
qed

lemma priv_component_dense:
  assumes cs: "dense_on P (cross_section self) sh a" and x: "dense_on P x sh u"
    and f: "\<And>y w. dense_on P y sh w \<Longrightarrow> \<exists>r. func y = Inr r \<and> dense_on Q r sh' (F w)"
    and nz: "\<And>idx. in_range sh' idx \<Longrightarrow> Q idx \<Longrightarrow> F a idx \<noteq> 0"
  shows "\<exists>r. priv_component self func x = Inr r \<and> dense_on Q r sh' (val_component F a u)"
proof -
  from dense_binop [OF x cs, of "(*)"] obtain p
    where p: "ma_mul x (cross_section self) = Inr p" "dense_on P p sh (\<lambda>k. u k * a k)"
    by (auto simp: ma_mul_def)
  from f [OF p(2)] obtain num
    where num: "func p = Inr num" "dense_on Q num sh' (F (\<lambda>k. u k * a k))"
    by blast
  from f [OF cs] obtain den
    where den: "func (cross_section self) = Inr den" "dense_on Q den sh' (F a)"
    by blast
  from dense_div [OF num(2) den(2) nz] obtain r
    where r: "ma_div num den = Inr r"
      "dense_on Q r sh' (\<lambda>idx. F (\<lambda>k. u k * a k) idx / F a idx)"
    by blast
  have "dense_on Q r sh' (val_component F a u)"
    using r(2) by (rule dense_on_weaken) (simp add: val_component_def)
  then show ?thesis
    by (simp add: priv_component_def p(1) num(1) den(1) r(1) ebind_Inr)
qed

lemma component1_dense:
  assumes t: "time_axis self = 0" and d: "depth_axis self = - 1"
    and cs: "dense_on (loc G 1 s) (cross_section self) [T, S, D] a"
    and x: "dense_on (loc G 1 s) x [T, S, D] u"
    and T: "G \<Longrightarrow> 0 < T"
    and nz1: "G \<Longrightarrow> mean_first T (sum_last D a) [s] \<noteq> 0"
  shows "\<exists>r. component1 self x = Inr r \<and> dense_on (loc G 0 s) r [S] (val_comp1 T D a u)"
  unfolding component1_def val_comp1_def
proof (rule priv_component_dense [OF cs x])
  show "\<exists>r. avg_time_int_depth self y = Inr r
          \<and> dense_on (loc G 0 s) r [S] (mean_first T (sum_last D w))"
    if "dense_on (loc G 1 s) y [T, S, D] w" for y w
    using avg_time_int_depth_dense [OF t d that T] .
  show "mean_first T (sum_last D a) idx \<noteq> 0" if "in_range [S] idx" "loc G 0 s idx" for idx
    using that nz1 by (auto simp: loc_simps)
qed

lemma component2_dense:
  assumes t: "time_axis self = 0" and d: "depth_axis self = - 1"
    and cs: "dense_on (loc G 1 s) (cross_section self) [T, S, D] a"
    and x: "dense_on (loc G 1 s) x [T, S, D] u"
    and c1: "(case comp1 of None \<Rightarrow> component1 self x | Some c \<Rightarrow> Inr c) = Inr k1"
      "dense_on (loc G 0 s) k1 [S] (val_comp1 T D a u)"
    and nz2: "\<And>j. G \<Longrightarrow> j < T \<Longrightarrow> sum_last D a [j, s] \<noteq> 0"
  shows "\<exists>r. component2 self x comp1 = Inr r \<and> dense_on (loc G 1 s) r [T, S] (val_comp2 T D a u)"
proof -
  have "\<exists>r. priv_component self (int_depth self) x = Inr r
          \<and> dense_on (loc G 1 s) r [T, S] (val_component (sum_last D) a u)"
  proof (rule priv_component_dense [OF cs x])
    show "\<exists>r. int_depth self y = Inr r \<and> dense_on (loc G 1 s) r [T, S] (sum_last D w)"
      if "dense_on (loc G 1 s) y [T, S, D] w" for y w
      using int_depth_dense3 [OF d that] .
    show "sum_last D a idx \<noteq> 0" if "in_range [T, S] idx" "loc G 1 s idx" for idx
      using that nz2 by (auto simp: loc_simps)
  qed
  then obtain c where c: "priv_component self (int_depth self) x = Inr c"
    "dense_on (loc G 1 s) c [T, S] (val_component (sum_last D) a u)"
    by blast
  from expand_time_dense1 [OF t c1(2)] obtain e
    where e: "expand_time self k1 = Inr e"
      "dense_on (loc G 1 s) e [1, S] (\<lambda>idx. val_comp1 T D a u (tl idx))"
    by blast
  have "\<exists>r. binop (lift2 (-)) c e = Inr r
          \<and> dense_on (loc G 1 s) r [T, S]
              (\<lambda>idx. val_component (sum_last D) a u idx - val_comp1 T D a u (tl (0 # tl idx)))"
    using c(2) e(2) by (rule dense_binop_first) (auto simp: loc_simps)
  then obtain r where r: "ma_sub c e = Inr r"
    "dense_on (loc G 1 s) r [T, S]
       (\<lambda>idx. val_component (sum_last D) a u idx - val_comp1 T D a u (tl (0 # tl idx)))"
    by (auto simp: ma_sub_def)
  have "dense_on (loc G 1 s) r [T, S] (val_comp2 T D a u)"
    using r(2) by (rule dense_on_weaken) (simp add: val_comp2_def)
  then show ?thesis
    by (simp add: component2_def c1(1) c(1) e(1) r(1) ebind_Inr)
qed

lemma component_int_dense:
  assumes t: "time_axis self = 0" and d: "depth_axis self = - 1"
    and x: "dense_on (loc G 1 s) x [T, S, D] u"
    and c1: "(case comp1 of None \<Rightarrow> component1 self x | Some c \<Rightarrow> Inr c) = Inr k1"
      "dense_on (loc G 0 s) k1 [S] (val_comp1 T D a u)"
    and c2: "(case comp2 of None \<Rightarrow> component2 self x (Some k1) | Some c \<Rightarrow> Inr c) = Inr k2"
      "dense_on (loc G 1 s) k2 [T, S] (val_comp2 T D a u)"
  shows "\<exists>r. component_int self x comp1 comp2 = Inr r
           \<and> dense_on (loc G 1 s) r [T, S, D] (val_int T D a u)"
proof -
  from expand_time_dense1 [OF t c1(2)] obtain e
    where e: "expand_time self k1 = Inr e"
      "dense_on (loc G 1 s) e [1, S] (\<lambda>idx. val_comp1 T D a u (tl idx))"
    by blast
  have "\<exists>r. binop (lift2 (+)) k2 e = Inr r
          \<and> dense_on (loc G 1 s) r [T, S]
              (\<lambda>idx. val_comp2 T D a u idx + val_comp1 T D a u (tl (0 # tl idx)))"
    using c2(2) e(2) by (rule dense_binop_first) (auto simp: loc_simps)
  then obtain sm where sm: "ma_add k2 e = Inr sm"
    "dense_on (loc G 1 s) sm [T, S]
       (\<lambda>idx. val_comp2 T D a u idx + val_comp1 T D a u (tl (0 # tl idx)))"
    by (auto simp: ma_add_def)
  from expand_depth_dense2 [OF d sm(2)] obtain y
    where y: "expand_depth self sm = Inr y"
      "dense_on (loc G 1 s) y [T, S, 1]
         (\<lambda>idx. val_comp2 T D a u (butlast idx)
                  + val_comp1 T D a u (tl (0 # tl (butlast idx))))"
    by blast
  have x': "dense_on (loc G 1 s) x ([T, S] @ [D]) u"
    using x by simp
  have y': "dense_on (loc G 1 s) y ([T, S] @ [1])
      (\<lambda>idx. val_comp2 T D a u (butlast idx) + val_comp1 T D a u (tl (0 # tl (butlast idx))))"
    using y(2) by simp
  have "\<exists>r. binop (lift2 (-)) x y = Inr r
          \<and> dense_on (loc G 1 s) r ([T, S] @ [D])
              (\<lambda>idx. u idx - (val_comp2 T D a u (butlast (butlast idx @ [0]))
                  + val_comp1 T D a u (tl (0 # tl (butlast (butlast idx @ [0]))))))"
    using x' y' by (rule dense_binop_last) (auto simp: loc_simps)
  then obtain r where r: "ma_sub x y = Inr r"
    "dense_on (loc G 1 s) r [T, S, D]
       (\<lambda>idx. u idx - (val_comp2 T D a u (butlast (butlast idx @ [0]))
                  + val_comp1 T D a u (tl (0 # tl (butlast (butlast idx @ [0]))))))"
    by (auto simp: ma_sub_def)
  have "dense_on (loc G 1 s) r [T, S, D] (val_int T D a u)"
    using r(2) by (rule dense_on_weaken) (simp add: val_int_def)
  then show ?thesis
    by (simp add: component_int_def c1(1) c2(1) e(1) sm(1) y(1) r(1) ebind_Inr)
qed

lemma component_int_default_dense:
  assumes t: "time_axis self = 0" and d: "depth_axis self = - 1"
    and cs: "dense_on (loc G 1 s) (cross_section self) [T, S, D] a"
    and x: "dense_on (loc G 1 s) x [T, S, D] u"
    and T: "G \<Longrightarrow> 0 < T"
    and nz1: "G \<Longrightarrow> mean_first T (sum_last D a) [s] \<noteq> 0"
    and nz2: "\<And>j. G \<Longrightarrow> j < T \<Longrightarrow> sum_last D a [j, s] \<noteq> 0"
  shows "\<exists>r. component_int self x None None = Inr r
           \<and> dense_on (loc G 1 s) r [T, S, D] (val_int T D a u)"
proof -
  from component1_dense [OF t d cs x T nz1] obtain k1
    where k1: "component1 self x = Inr k1" "dense_on (loc G 0 s) k1 [S] (val_comp1 T D a u)"
    by blast
  have "\<exists>r. component2 self x (Some k1) = Inr r
          \<and> dense_on (loc G 1 s) r [T, S] (val_comp2 T D a u)"
    using t d cs x _ k1(2) nz2 by (rule component2_dense) simp_all
  then obtain k2
    where k2: "component2 self x (Some k1) = Inr k2"
      "dense_on (loc G 1 s) k2 [T, S] (val_comp2 T D a u)"
    by blast
  show ?thesis
    using t d x _ k1(2) _ k2(2) by (rule component_int_dense) (simp_all add: k1(1) k2(1))
qed

lemma component2_default_dense:
  assumes t: "time_axis self = 0" and d: "depth_axis self = - 1"
    and cs: "dense_on (loc G 1 s) (cross_section self) [T, S, D] a"
    and x: "dense_on (loc G 1 s) x [T, S, D] u"
    and T: "G \<Longrightarrow> 0 < T"
    and nz1: "G \<Longrightarrow> mean_first T (sum_last D a) [s] \<noteq> 0"
    and nz2: "\<And>j. G \<Longrightarrow> j < T \<Longrightarrow> sum_last D a [j, s] \<noteq> 0"
  shows "\<exists>r. component2 self x None = Inr r
           \<and> dense_on (loc G 1 s) r [T, S] (val_comp2 T D a u)"
proof -
  from component1_dense [OF t d cs x T nz1] obtain k1
    where k1: "component1 self x = Inr k1" "dense_on (loc G 0 s) k1 [S] (val_comp1 T D a u)"
    by blast
  show ?thesis
    using t d cs x _ k1(2) nz2 by (rule component2_dense) (simp_all add: k1(1))
qed

lemma component3_dense:
  assumes t: "time_axis self = 0"
    and cs: "dense_on (loc G 1 s) (cross_section self) [T, S, D] a"
    and x: "dense_on (loc G 1 s) x [T, S, D] w"
    and T: "G \<Longrightarrow> 0 < T"
    and nz3: "\<And>j. G \<Longrightarrow> j < D \<Longrightarrow> mean_first T a [s, j] \<noteq> 0"
  shows "\<exists>r. component3 self x True = Inr r
           \<and> dense_on (loc G 0 s) r [S, D] (val_component (mean_first T) a w)"
proof -
  have "\<exists>r. priv_component self (avg_time self) x = Inr r
          \<and> dense_on (loc G 0 s) r [S, D] (val_component (mean_first T) a w)"
  proof (rule priv_component_dense [OF cs x])
    show "\<exists>r. avg_time self y = Inr r \<and> dense_on (loc G 0 s) r [S, D] (mean_first T v)"
      if "dense_on (loc G 1 s) y [T, S, D] v" for y v
      using avg_time_dense3 [OF t that T] .
    show "mean_first T a idx \<noteq> 0" if "in_range [S, D] idx" "loc G 0 s idx" for idx
      using that nz3 by (auto simp: loc_simps)
  qed
  then show ?thesis
    by (simp add: component3_def ebind_Inr)
qed

lemma component3_default_dense:
  assumes t: "time_axis self = 0" and d: "depth_axis self = - 1"
    and cs: "dense_on (loc G 1 s) (cross_section self) [T, S, D] a"
    and x: "dense_on (loc G 1 s) x [T, S, D] u"
    and T: "G \<Longrightarrow> 0 < T"
    and nz1: "G \<Longrightarrow> mean_first T (sum_last D a) [s] \<noteq> 0"
    and nz2: "\<And>j. G \<Longrightarrow> j < T \<Longrightarrow> sum_last D a [j, s] \<noteq> 0"
    and nz3: "\<And>j. G \<Longrightarrow> j < D \<Longrightarrow> mean_first T a [s, j] \<noteq> 0"
  shows "\<exists>r. component3 self x False = Inr r
           \<and> dense_on (loc G 0 s) r [S, D] (val_comp3 T D a u)"
proof -
  from component_int_default_dense [OF t d cs x T nz1 nz2] obtain y
    where y: "component_int self x None None = Inr y"
      "dense_on (loc G 1 s) y [T, S, D] (val_int T D a u)"
    by blast
  from component3_dense [OF t cs y(2) T nz3] show ?thesis
    by (simp add: component3_def y(1) ebind_Inr val_comp3_def)
qed

lemma component4_default_dense:
  assumes t: "time_axis self = 0" and d: "depth_axis self = - 1"
    and cs: "dense_on (loc G 1 s) (cross_section self) [T, S, D] a"
    and x: "dense_on (loc G 1 s) x [T, S, D] u"
    and T: "G \<Longrightarrow> 0 < T"
    and nz1: "G \<Longrightarrow> mean_first T (sum_last D a) [s] \<noteq> 0"
    and nz2: "\<And>j. G \<Longrightarrow> j < T \<Longrightarrow> sum_last D a [j, s] \<noteq> 0"
    and nz3: "\<And>j. G \<Longrightarrow> j < D \<Longrightarrow> mean_first T a [s, j] \<noteq> 0"
  shows "\<exists>r. component4 self x False None = Inr r
           \<and> dense_on (loc G 1 s) r [T, S, D] (val_comp4 T D a u)"
proof -
  from component_int_default_dense [OF t d cs x T nz1 nz2] obtain y
    where y: "component_int self x None None = Inr y"
      "dense_on (loc G 1 s) y [T, S, D] (val_int T D a u)"
    by blast
  from component3_dense [OF t cs y(2) T nz3] obtain k3
    where k3: "component3 self y True = Inr k3"
      "dense_on (loc G 0 s) k3 [S, D] (val_comp3 T D a u)"
    by (auto simp: val_comp3_def)
  from expand_time_dense2 [OF t k3(2)] obtain e
    where e: "expand_time self k3 = Inr e"
      "dense_on (loc G 1 s) e [1, S, D] (\<lambda>idx. val_comp3 T D a u (tl idx))"
    by blast
  have "\<exists>r. binop (lift2 (-)) y e = Inr r
          \<and> dense_on (loc G 1 s) r [T, S, D]
              (\<lambda>idx. val_int T D a u idx - val_comp3 T D a u (tl (0 # tl idx)))"
    using y(2) e(2) by (rule dense_binop_first) (auto simp: loc_simps)
  then obtain r where r: "ma_sub y e = Inr r"
    "dense_on (loc G 1 s) r [T, S, D]
       (\<lambda>idx. val_int T D a u idx - val_comp3 T D a u (tl (0 # tl idx)))"
    by (auto simp: ma_sub_def)
  have "dense_on (loc G 1 s) r [T, S, D] (val_comp4 T D a u)"
    using r(2) by (rule dense_on_weaken) (simp add: val_comp4_def)
  then show ?thesis
    by (simp add: component4_def y(1) k3(1) e(1) r(1) ebind_Inr)
qed

section \<open>Construction\<close>

text \<open>
  Claim C3. Whenever at least two of \<open>flow\<close>, \<open>salinity\<close> and \<open>cross_section\<close> differ in
  shape, \<open>SFD.__init__\<close> raises the \<open>ValueError\<close> whose message carries the three shapes,
  and no instance results; whenever the three shapes are identical, the instance is
  constructed, holding the three fields, the axes of the keyword arguments (0 and -1 by
  default) and four empty caches.
\<close>

theorem init_checks_shapes:
  "(shape f \<noteq> shape s \<or> shape s \<noteq> shape c \<or> shape f \<noteq> shape c
      \<longrightarrow> init f s c kwargs = Inl (ValueError_shapes (shape f) (shape s) (shape c)))
   \<and> (shape f = shape s \<and> shape s = shape c
      \<longrightarrow> init f s c kwargs
          = Inr (new_SFD f s c (kwargs_get kwargs ''time_axis'' 0)
                   (kwargs_get kwargs ''depth_axis'' (- 1))))"
  by (auto simp: init_def new_SFD_def)

theorem init_checks_shapes_witness:
  "init (full [10, 8, 10] (Some 1)) (full [10, 10, 10] (Some 30)) (full [10, 10, 10] (Some 1))
       Map.empty
     = Inl (ValueError_shapes [10, 8, 10] [10, 10, 10] [10, 10, 10])
   \<and> init (full [10, 10, 10] (Some 1)) (full [10, 10, 10] (Some 30))
       (full [10, 10, 10] (Some 1)) Map.empty
     = Inr (new_SFD (full [10, 10, 10] (Some 1)) (full [10, 10, 10] (Some 30))
             (full [10, 10, 10] (Some 1)) 0 (- 1))"
  using init_checks_shapes [of "full [10, 8, 10] (Some 1)" "full [10, 10, 10] (Some 30)"
      "full [10, 10, 10] (Some 1)" Map.empty]
    init_checks_shapes [of "full [10, 10, 10] (Some 1)" "full [10, 10, 10] (Some 30)"
      "full [10, 10, 10] (Some 1)" Map.empty]
  by (simp add: shape_full kwargs_get_def)

text \<open>
  Claim C10 fails as stated for equal axes. With \<open>time_axis = depth_axis = 1\<close> on a field of
  shape (2, 2, 2) the instance is constructed, and nothing is raised afterwards either:
  \<open>int_depth\<close>, \<open>avg_time\<close> and \<open>avg_time_int_depth\<close> return arrays (the last one has summed
  over axis 1 and averaged over what was axis 2), and \<open>fluxes\<close> returns four arrays.
\<close>

theorem equal_axes_counterexample:
  "init ex_dts ex_dts ex_dts [''time_axis'' \<mapsto> 1, ''depth_axis'' \<mapsto> 1] = Inr ex_equal_SFD
   \<and> int_depth ex_equal_SFD ex_dts = Inr (arr [2, 2] [Some 4, Some 6, Some 40, Some 60])
   \<and> avg_time ex_equal_SFD ex_dts = Inr (arr [2, 2] [Some 2, Some 3, Some 20, Some 30])
   \<and> avg_time_int_depth ex_equal_SFD ex_dts = Inr (arr [2] [Some 5, Some 50])
   \<and> fst (fluxes ex_equal_SFD)
       = Inr (arr [2] [Some 45, Some 45000], arr [2] [Some (5 / 6), Some (2500 / 3)],
              arr [2] [Some 0, Some 0], arr [2] [Some (25 / 6), Some (12500 / 3)])"
  by code_simp

lemma length_remove_at: "k < length xs \<Longrightarrow> length (remove_at k xs) = length xs - 1"
  by (simp add: remove_at_def)

lemma normalize_axis_index_inside:
  assumes "- int n \<le> axis" and "axis < int n"
  shows "\<exists>k<n. normalize_axis_index axis n = Inr k"
proof -
  have "nat (if axis < 0 then axis + int n else axis) < n"
    using assms by (cases "axis < 0") simp_all
  then show ?thesis
    using assms by (simp add: normalize_axis_index_def)
qed

lemma reduce_axis_twice:
  assumes "- int (length (shape x)) < axis" and "axis + 1 < int (length (shape x))"
  shows "\<exists>r r'. reduce_axis f x axis = Inr r \<and> reduce_axis g r axis = Inr r'
     \<and> length (shape r') + 2 = length (shape x)"
proof -
  obtain k where k: "normalize_axis_index axis (length (shape x)) = Inr k" "k < length (shape x)"
    using normalize_axis_index_inside [of "length (shape x)" axis] assms by auto
  define r where "r = mk (remove_at k (shape x))
             (\<lambda>idx. f (map (\<lambda>j. item x (insert_at k j idx)) [0..<shape x ! k]))"
  have r: "reduce_axis f x axis = Inr r"
    by (simp add: reduce_axis_def k r_def)
  have len: "length (shape r) = length (shape x) - 1"
    using k by (simp add: r_def shape_mk length_remove_at)
  obtain k' where k': "normalize_axis_index axis (length (shape r)) = Inr k'"
    "k' < length (shape r)"
    using normalize_axis_index_inside [of "length (shape r)" axis] assms len by auto
  have "\<exists>r'. reduce_axis g r axis = Inr r' \<and> length (shape r') + 2 = length (shape x)"
    using k' len assms by (simp add: reduce_axis_def shape_mk length_remove_at)
  then show ?thesis
    using r by blast
qed

text \<open>
  Claim C10, amended. \<open>SFD.__init__\<close> never looks at \<open>time_axis\<close> and \<open>depth_axis\<close>: for fields of
  identical shape and any two integers, equal or out of range as they may be, the instance
  is constructed with these axes. An axis out of range for an array is reported later, by
  the reduction that uses it, as an \<open>AxisError\<close>. Equal axes are reported nowhere: when the
  one index names an axis of the array and of the array with one axis less,
  \<open>avg_time_int_depth\<close> returns an array, reduced along two different axes.
\<close>

theorem init_ignores_axes:
  assumes "shape f = shape s" and "shape s = shape c"
    and "kwargs ''time_axis'' = Some ta" and "kwargs ''depth_axis'' = Some da"
  shows "init f s c kwargs = Inr (new_SFD f s c ta da)
    \<and> (\<not> (- int (length (shape x)) \<le> da \<and> da < int (length (shape x)))
         \<longrightarrow> int_depth (new_SFD f s c ta da) x = Inl (AxisError da (length (shape x))))
    \<and> (\<not> (- int (length (shape x)) \<le> ta \<and> ta < int (length (shape x)))
         \<longrightarrow> avg_time (new_SFD f s c ta da) x = Inl (AxisError ta (length (shape x))))
    \<and> (ta = da \<and> - int (length (shape x)) < ta \<and> ta + 1 < int (length (shape x))
         \<longrightarrow> (\<exists>r. avg_time_int_depth (new_SFD f s c ta da) x = Inr r
                \<and> length (shape r) + 2 = length (shape x)))"
proof -
  have "\<exists>r. avg_time_int_depth (new_SFD f s c ta da) x = Inr r
                \<and> length (shape r) + 2 = length (shape x)"
    if "ta = da" "- int (length (shape x)) < ta" "ta + 1 < int (length (shape x))"
    using reduce_axis_twice [of x ta msum mmean] that
    by (auto simp: avg_time_int_depth_def int_depth_def avg_time_def ma_sum_def ma_mean_def
        new_SFD_def ebind_def)
  then show ?thesis
    using assms
    by (simp add: init_def new_SFD_def kwargs_get_def int_depth_def avg_time_def ma_sum_def
      ma_mean_def reduce_axis_out_of_range)
qed

theorem init_ignores_axes_witness:
  "init (full [2, 2, 2] (Some 1)) (full [2, 2, 2] (Some 30)) (full [2, 2, 2] (Some 1))
       [''time_axis'' \<mapsto> 7, ''depth_axis'' \<mapsto> 7]
     = Inr (new_SFD (full [2, 2, 2] (Some 1)) (full [2, 2, 2] (Some 30))
             (full [2, 2, 2] (Some 1)) 7 7)
   \<and> int_depth (new_SFD (full [2, 2, 2] (Some 1)) (full [2, 2, 2] (Some 30))
             (full [2, 2, 2] (Some 1)) 7 7) (full [2, 2, 2] (Some 1)) = Inl (AxisError 7 3)
   \<and> avg_time (new_SFD (full [2, 2, 2] (Some 1)) (full [2, 2, 2] (Some 30))
             (full [2, 2, 2] (Some 1)) 7 7) (full [2, 2, 2] (Some 1)) = Inl (AxisError 7 3)
   \<and> init ex_dts ex_dts ex_dts [''time_axis'' \<mapsto> 1, ''depth_axis'' \<mapsto> 1]
     = Inr (new_SFD ex_dts ex_dts ex_dts 1 1)
   \<and> (\<exists>r. avg_time_int_depth (new_SFD ex_dts ex_dts ex_dts 1 1) ex_dts = Inr r
          \<and> length (shape r) = 1)"
proof -
  have sh: "shape ex_dts = [2, 2, 2]"
    by (simp add: ex_dts_def arr_def)
  show ?thesis
    using init_ignores_axes [of "full [2, 2, 2] (Some 1)" "full [2, 2, 2] (Some 30)"
      "full [2, 2, 2] (Some 1)" "[''time_axis'' \<mapsto> 7, ''depth_axis'' \<mapsto> 7]" 7 7
      "full [2, 2, 2] (Some 1)"]
      init_ignores_axes [of ex_dts ex_dts ex_dts
        "[''time_axis'' \<mapsto> 1, ''depth_axis'' \<mapsto> 1]" 1 1 ex_dts]
    by (simp add: shape_full sh)
qed

section \<open>Precomputed components\<close>

text \<open>
  Claim C8. Each extraction function gives the same result (the same array or the same
  exception) whether its upstream components are left out or passed in precomputed:
  \<open>component2\<close> with \<open>comp1 = component1(field)\<close>, \<open>component_\<close> with \<open>comp1\<close> and \<open>comp2\<close>
  computed by \<open>component1\<close> and \<open>component2\<close>, and \<open>component4\<close> with \<open>comp3 = component3(field)\<close>;
  likewise \<open>component3\<close> and \<open>component4\<close> on the precomputed intermediate component.
\<close>

theorem components_precomputed:
  "ebind (component1 self v) (\<lambda>c1. component2 self v (Some c1)) = component2 self v None
   \<and> ebind (component1 self v) (\<lambda>c1. ebind (component2 self v None) (\<lambda>c2.
        component_int self v (Some c1) (Some c2))) = component_int self v None None
   \<and> ebind (component3 self v False) (\<lambda>c3. component4 self v False (Some c3))
        = component4 self v False None
   \<and> ebind (component_int self v None None) (\<lambda>r. component3 self r True)
        = component3 self v False
   \<and> ebind (component_int self v None None) (\<lambda>r. component4 self r True None)
        = component4 self v False None"
proof (intro conjI)
  show "ebind (component1 self v) (\<lambda>c1. component2 self v (Some c1)) = component2 self v None"
    by (cases "component1 self v") (simp_all add: component2_def ebind_Inl ebind_Inr)
  show "ebind (component1 self v) (\<lambda>c1. ebind (component2 self v None) (\<lambda>c2.
        component_int self v (Some c1) (Some c2))) = component_int self v None None"
  proof (cases "component1 self v")
    case (Inl e)
    then show ?thesis by (simp add: component_int_def ebind_Inl)
  next
    case (Inr c1)
    then have "component2 self v None = component2 self v (Some c1)"
      by (simp add: component2_def ebind_Inr)
    with Inr show ?thesis
      by (cases "component2 self v (Some c1)") (simp_all add: component_int_def ebind_Inl ebind_Inr)
  qed
  show "ebind (component3 self v False) (\<lambda>c3. component4 self v False (Some c3))
        = component4 self v False None"
  proof (cases "component_int self v None None")
    case (Inl e)
    then show ?thesis by (simp add: component3_def component4_def ebind_Inl)
  next
    case (Inr r)
    then show ?thesis
      by (cases "priv_component self (avg_time self) r")
        (simp_all add: component3_def component4_def ebind_Inl ebind_Inr)
  qed
  show "ebind (component_int self v None None) (\<lambda>r. component3 self r True)
        = component3 self v False"
    by (cases "component_int self v None None") (simp_all add: component3_def ebind_Inl ebind_Inr)
  show "ebind (component_int self v None None) (\<lambda>r. component4 self r True None)
        = component4 self v False None"
    by (cases "component_int self v None None") (simp_all add: component4_def ebind_Inl ebind_Inr)
qed

theorem components_precomputed_witness:
  "ebind (component1 ex_SFD ex_flow) (\<lambda>c1. component2 ex_SFD ex_flow (Some c1))
     = component2 ex_SFD ex_flow None
   \<and> component2 ex_SFD ex_flow None = Inr (arr [2, 1] [Some (- 17 / 10), Some (17 / 15)])
   \<and> ebind (component3 ex_SFD ex_flow False) (\<lambda>c3. component4 ex_SFD ex_flow False (Some c3))
     = component4 ex_SFD ex_flow False None
   \<and> component4 ex_SFD ex_flow False None
     = Inr (arr [2, 1, 2] [Some (5 / 12), Some (- 1 / 9), Some (- 5 / 12), Some (1 / 18)])"
proof -
  have "component2 ex_SFD ex_flow None = Inr (arr [2, 1] [Some (- 17 / 10), Some (17 / 15)])"
    by code_simp
  moreover have "component4 ex_SFD ex_flow False None
     = Inr (arr [2, 1, 2] [Some (5 / 12), Some (- 1 / 9), Some (- 5 / 12), Some (1 / 18)])"
    by code_simp
  ultimately show ?thesis
    using components_precomputed [of ex_SFD ex_flow] by simp
qed

section \<open>The cached properties\<close>

lemma methods_frame:
  assumes "flow s' = flow s" and "salinity s' = salinity s"
    and "cross_section s' = cross_section s"
    and "time_axis s' = time_axis s" and "depth_axis s' = depth_axis s"
  shows "calc_flux1 s' = calc_flux1 s" and "calc_flux2 s' = calc_flux2 s"
    and "calc_flux3 s' = calc_flux3 s" and "calc_flux4 s' = calc_flux4 s"
proof -
  have at: "avg_time s' = avg_time s"
    using assms by (intro ext) (simp add: avg_time_def)
  have id: "int_depth s' = int_depth s"
    using assms by (intro ext) (simp add: int_depth_def)
  have atid: "avg_time_int_depth s' = avg_time_int_depth s"
    by (intro ext) (simp add: avg_time_int_depth_def at id)
  have et: "expand_time s' = expand_time s"
    using assms by (intro ext) (simp add: expand_time_def)
  have ed: "expand_depth s' = expand_depth s"
    using assms by (intro ext) (simp add: expand_depth_def)
  have pc: "priv_component s' = priv_component s"
    using assms by (intro ext) (simp add: priv_component_def)
  have k1: "component1 s' = component1 s"
    by (intro ext) (simp add: component1_def pc atid)
  have k2: "component2 s' = component2 s"
    by (intro ext) (simp add: component2_def pc k1 id et cong: option.case_cong)
  have ki: "component_int s' = component_int s"
    by (intro ext) (simp add: component_int_def k1 k2 et ed cong: option.case_cong)
  have k3: "component3 s' = component3 s"
    by (intro ext) (simp add: component3_def ki pc at)
  have k4: "component4 s' = component4 s"
    by (intro ext) (simp add: component4_def ki k3 et cong: option.case_cong)
  have cf: "priv_calc_flux s' = priv_calc_flux s"
    using assms by (intro ext) (simp add: priv_calc_flux_def)
  show "calc_flux1 s' = calc_flux1 s"
    by (simp add: calc_flux1_def cf k1 atid)
  show "calc_flux2 s' = calc_flux2 s"
    by (simp add: calc_flux2_def cf k2 id at)
  show "calc_flux3 s' = calc_flux3 s"
    by (simp add: calc_flux3_def cf k3 id at)
  show "calc_flux4 s' = calc_flux4 s"
    by (simp add: calc_flux4_def cf k4 atid)
qed

lemma calc_flux_cache_frame:
  "calc_flux2 (self\<lparr>priv_flux0 := x\<rparr>) = calc_flux2 self"
  "calc_flux3 (self\<lparr>priv_flux0 := x, priv_flux1 := y\<rparr>) = calc_flux3 self"
  "calc_flux4 (self\<lparr>priv_flux0 := x, priv_flux1 := y, priv_flux3 := z\<rparr>) = calc_flux4 self"
  by (rule methods_frame; simp)+

lemma memo_cached: "memo self (Some v) store compute = (Inr v, self)"
  by (simp add: memo_def)

lemma memo_fresh: "compute = Inr v \<Longrightarrow> memo self None store compute = (Inr v, store v)"
  by (simp add: memo_def)

lemma flux1_step:
  assumes "(case priv_flux0 self of Some v \<Rightarrow> Inr v | None \<Rightarrow> calc_flux1 self) = Inr f"
  shows "flux1 self = (Inr f, self\<lparr>priv_flux0 := Some f\<rparr>)"
  using assms by (cases "priv_flux0 self") (simp_all add: flux1_def memo_def)

lemma flux2_step:
  assumes "(case priv_flux1 self of Some v \<Rightarrow> Inr v | None \<Rightarrow> calc_flux2 self) = Inr f"
  shows "flux2 self = (Inr f, self\<lparr>priv_flux1 := Some f\<rparr>)"
  using assms by (cases "priv_flux1 self") (simp_all add: flux2_def memo_def)

lemma flux3_step:
  assumes "(case priv_flux3 self of Some v \<Rightarrow> Inr v | None \<Rightarrow> calc_flux3 self) = Inr f"
  shows "flux3 self = (Inr f, self\<lparr>priv_flux3 := Some f\<rparr>)"
  using assms by (cases "priv_flux3 self") (simp_all add: flux3_def memo_def)

lemma flux4_step:
  assumes "(case priv_flux4 self of Some v \<Rightarrow> Inr v | None \<Rightarrow> calc_flux4 self) = Inr f"
  shows "flux4 self = (Inr f, self\<lparr>priv_flux4 := Some f\<rparr>)"
  using assms by (cases "priv_flux4 self") (simp_all add: flux4_def memo_def)

lemma fluxes_steps:
  assumes "flux1 self = (Inr f1, s1)" and "flux2 s1 = (Inr f2, s2)"
    and "flux3 s2 = (Inr f3, s3)" and "flux4 s3 = (Inr f4, s4)"
  shows "fluxes self = (Inr (f1, f2, f3, f4), s4)"
  using assms by (simp add: fluxes_def)

lemma flux1_raises:
  assumes "cache_or_compute (priv_flux0 self) (calc_flux1 self) = Inl e"
  shows "flux1 self = (Inl e, self)"
  using assms by (cases "priv_flux0 self") (simp_all add: flux1_def memo_def)

lemma flux2_raises:
  assumes "cache_or_compute (priv_flux1 self) (calc_flux2 self) = Inl e"
  shows "flux2 self = (Inl e, self)"
  using assms by (cases "priv_flux1 self") (simp_all add: flux2_def memo_def)

lemma flux3_raises:
  assumes "cache_or_compute (priv_flux3 self) (calc_flux3 self) = Inl e"
  shows "flux3 self = (Inl e, self)"
  using assms by (cases "priv_flux3 self") (simp_all add: flux3_def memo_def)

lemma flux4_raises:
  assumes "cache_or_compute (priv_flux4 self) (calc_flux4 self) = Inl e"
  shows "flux4 self = (Inl e, self)"
  using assms by (cases "priv_flux4 self") (simp_all add: flux4_def memo_def)

text \<open>
  Claim C9. Each of \<open>flux1\<close>, ..., \<open>flux4\<close> returns the value in its cache when there is
  one, whatever the computation would give, and otherwise computes it, stores it and
  returns it; a second access returns the same value and leaves the instance as it is.
  \<open>fluxes\<close> reads the four in the order \<open>flux1\<close>, \<open>flux2\<close>, \<open>flux3\<close>, \<open>flux4\<close>, computes only
  those not yet cached, and leaves all four cached; a second access computes nothing.
  The order shows when a computation raises: the exception of the first flux that fails
  is the one that \<open>fluxes\<close> raises, the fluxes before it are cached by then, and the fluxes
  after it have been neither computed nor cached. An access that raises leaves its cache
  empty.
\<close>

theorem fluxes_memoized:
  "(cache_or_compute (priv_flux0 self) (calc_flux1 self) = Inr f1
      \<longrightarrow> flux1 self = (Inr f1, self\<lparr>priv_flux0 := Some f1\<rparr>)
        \<and> flux1 (self\<lparr>priv_flux0 := Some f1\<rparr>) = (Inr f1, self\<lparr>priv_flux0 := Some f1\<rparr>))
   \<and> (cache_or_compute (priv_flux1 self) (calc_flux2 self) = Inr f2
      \<longrightarrow> flux2 self = (Inr f2, self\<lparr>priv_flux1 := Some f2\<rparr>)
        \<and> flux2 (self\<lparr>priv_flux1 := Some f2\<rparr>) = (Inr f2, self\<lparr>priv_flux1 := Some f2\<rparr>))
   \<and> (cache_or_compute (priv_flux3 self) (calc_flux3 self) = Inr f3
      \<longrightarrow> flux3 self = (Inr f3, self\<lparr>priv_flux3 := Some f3\<rparr>)
        \<and> flux3 (self\<lparr>priv_flux3 := Some f3\<rparr>) = (Inr f3, self\<lparr>priv_flux3 := Some f3\<rparr>))
   \<and> (cache_or_compute (priv_flux4 self) (calc_flux4 self) = Inr f4
      \<longrightarrow> flux4 self = (Inr f4, self\<lparr>priv_flux4 := Some f4\<rparr>)
        \<and> flux4 (self\<lparr>priv_flux4 := Some f4\<rparr>) = (Inr f4, self\<lparr>priv_flux4 := Some f4\<rparr>))
   \<and> (cache_or_compute (priv_flux0 self) (calc_flux1 self) = Inr f1
      \<and> cache_or_compute (priv_flux1 self) (calc_flux2 self) = Inr f2
      \<and> cache_or_compute (priv_flux3 self) (calc_flux3 self) = Inr f3
      \<and> cache_or_compute (priv_flux4 self) (calc_flux4 self) = Inr f4
      \<longrightarrow> fluxes self
            = (Inr (f1, f2, f3, f4),
               self\<lparr>priv_flux0 := Some f1, priv_flux1 := Some f2,
                     priv_flux3 := Some f3, priv_flux4 := Some f4\<rparr>)
        \<and> fluxes (self\<lparr>priv_flux0 := Some f1, priv_flux1 := Some f2,
                     priv_flux3 := Some f3, priv_flux4 := Some f4\<rparr>)
            = (Inr (f1, f2, f3, f4),
               self\<lparr>priv_flux0 := Some f1, priv_flux1 := Some f2,
                     priv_flux3 := Some f3, priv_flux4 := Some f4\<rparr>))
   \<and> (cache_or_compute (priv_flux0 self) (calc_flux1 self) = Inl e
      \<longrightarrow> flux1 self = (Inl e, self) \<and> fluxes self = (Inl e, self))
   \<and> (cache_or_compute (priv_flux0 self) (calc_flux1 self) = Inr f1
      \<and> cache_or_compute (priv_flux1 self) (calc_flux2 self) = Inl e
      \<longrightarrow> flux2 self = (Inl e, self)
        \<and> fluxes self = (Inl e, self\<lparr>priv_flux0 := Some f1\<rparr>))
   \<and> (cache_or_compute (priv_flux0 self) (calc_flux1 self) = Inr f1
      \<and> cache_or_compute (priv_flux1 self) (calc_flux2 self) = Inr f2
      \<and> cache_or_compute (priv_flux3 self) (calc_flux3 self) = Inl e
      \<longrightarrow> flux3 self = (Inl e, self)
        \<and> fluxes self = (Inl e, self\<lparr>priv_flux0 := Some f1, priv_flux1 := Some f2\<rparr>))
   \<and> (cache_or_compute (priv_flux0 self) (calc_flux1 self) = Inr f1
      \<and> cache_or_compute (priv_flux1 self) (calc_flux2 self) = Inr f2
      \<and> cache_or_compute (priv_flux3 self) (calc_flux3 self) = Inr f3
      \<and> cache_or_compute (priv_flux4 self) (calc_flux4 self) = Inl e
      \<longrightarrow> flux4 self = (Inl e, self)
        \<and> fluxes self
            = (Inl e, self\<lparr>priv_flux0 := Some f1, priv_flux1 := Some f2,
                           priv_flux3 := Some f3\<rparr>))"
  (is "?A1 \<and> ?A2 \<and> ?A3 \<and> ?A4 \<and> ?OK \<and> ?F1 \<and> ?F2 \<and> ?F3 \<and> ?F4")
proof -
  let ?s1 = "self\<lparr>priv_flux0 := Some f1\<rparr>"
  let ?s2 = "?s1\<lparr>priv_flux1 := Some f2\<rparr>"
  let ?s3 = "?s2\<lparr>priv_flux3 := Some f3\<rparr>"
  let ?s4 = "?s3\<lparr>priv_flux4 := Some f4\<rparr>"
  have A1: ?A1
    by (auto simp: flux1_step)
  have A2: ?A2
    by (auto simp: flux2_step)
  have A3: ?A3
    by (auto simp: flux3_step)
  have A4: ?A4
    by (auto simp: flux4_step)
  have a2: "flux2 ?s1 = (Inr f2, ?s2)"
    if "cache_or_compute (priv_flux1 self) (calc_flux2 self) = Inr f2"
    using that by (intro flux2_step) (simp add: calc_flux_cache_frame cong: option.case_cong)
  have a3: "flux3 ?s2 = (Inr f3, ?s3)"
    if "cache_or_compute (priv_flux3 self) (calc_flux3 self) = Inr f3"
    using that by (intro flux3_step) (simp add: calc_flux_cache_frame cong: option.case_cong)
  have a4: "flux4 ?s3 = (Inr f4, ?s4)"
    if "cache_or_compute (priv_flux4 self) (calc_flux4 self) = Inr f4"
    using that by (intro flux4_step) (simp add: calc_flux_cache_frame cong: option.case_cong)
  have r2: "flux2 ?s1 = (Inl e, ?s1)"
    if "cache_or_compute (priv_flux1 self) (calc_flux2 self) = Inl e"
    using that by (intro flux2_raises) (simp add: calc_flux_cache_frame cong: option.case_cong)
  have r3: "flux3 ?s2 = (Inl e, ?s2)"
    if "cache_or_compute (priv_flux3 self) (calc_flux3 self) = Inl e"
    using that by (intro flux3_raises) (simp add: calc_flux_cache_frame cong: option.case_cong)
  have r4: "flux4 ?s3 = (Inl e, ?s3)"
    if "cache_or_compute (priv_flux4 self) (calc_flux4 self) = Inl e"
    using that by (intro flux4_raises) (simp add: calc_flux_cache_frame cong: option.case_cong)
  have OK: ?OK
  proof (intro impI, elim conjE)
    assume c1: "cache_or_compute (priv_flux0 self) (calc_flux1 self) = Inr f1"
      and c2: "cache_or_compute (priv_flux1 self) (calc_flux2 self) = Inr f2"
      and c3: "cache_or_compute (priv_flux3 self) (calc_flux3 self) = Inr f3"
      and c4: "cache_or_compute (priv_flux4 self) (calc_flux4 self) = Inr f4"
    have first: "fluxes self = (Inr (f1, f2, f3, f4), ?s4)"
      using flux1_step [OF c1] a2 [OF c2] a3 [OF c3] a4 [OF c4] by (rule fluxes_steps)
    have b1: "flux1 ?s4 = (Inr f1, ?s4)"
      by (simp add: flux1_def memo_def)
    have b2: "flux2 ?s4 = (Inr f2, ?s4)"
      by (simp add: flux2_def memo_def)
    have b3: "flux3 ?s4 = (Inr f3, ?s4)"
      by (simp add: flux3_def memo_def)
    have b4: "flux4 ?s4 = (Inr f4, ?s4)"
      by (simp add: flux4_def memo_def)
    have again: "fluxes ?s4 = (Inr (f1, f2, f3, f4), ?s4)"
      using b1 b2 b3 b4 by (rule fluxes_steps)
    show "fluxes self = (Inr (f1, f2, f3, f4), ?s4) \<and> fluxes ?s4 = (Inr (f1, f2, f3, f4), ?s4)"
      using first again by simp
  qed
  have F1: ?F1
    by (simp add: flux1_raises fluxes_def)
  have F2: ?F2
  proof (intro impI, elim conjE)
    assume c1: "cache_or_compute (priv_flux0 self) (calc_flux1 self) = Inr f1"
      and c2: "cache_or_compute (priv_flux1 self) (calc_flux2 self) = Inl e"
    show "flux2 self = (Inl e, self) \<and> fluxes self = (Inl e, ?s1)"
      using flux2_raises [OF c2] by (simp add: fluxes_def flux1_step [OF c1] r2 [OF c2])
  qed
  have F3: ?F3
  proof (intro impI, elim conjE)
    assume c1: "cache_or_compute (priv_flux0 self) (calc_flux1 self) = Inr f1"
      and c2: "cache_or_compute (priv_flux1 self) (calc_flux2 self) = Inr f2"
      and c3: "cache_or_compute (priv_flux3 self) (calc_flux3 self) = Inl e"
    show "flux3 self = (Inl e, self) \<and> fluxes self = (Inl e, ?s2)"
      using flux3_raises [OF c3]
      by (simp add: fluxes_def flux1_step [OF c1] a2 [OF c2] r3 [OF c3])
  qed
  have F4: ?F4
  proof (intro impI, elim conjE)
    assume c1: "cache_or_compute (priv_flux0 self) (calc_flux1 self) = Inr f1"
      and c2: "cache_or_compute (priv_flux1 self) (calc_flux2 self) = Inr f2"
      and c3: "cache_or_compute (priv_flux3 self) (calc_flux3 self) = Inr f3"
      and c4: "cache_or_compute (priv_flux4 self) (calc_flux4 self) = Inl e"
    show "flux4 self = (Inl e, self) \<and> fluxes self = (Inl e, ?s3)"
      using flux4_raises [OF c4]
      by (simp add: fluxes_def flux1_step [OF c1] a2 [OF c2] a3 [OF c3] r4 [OF c4])
  qed
  show ?thesis
    using A1 A2 A3 A4 OK F1 F2 F3 F4 by (intro conjI)
qed

theorem fluxes_memoized_witness:
  "flux1 ex_SFD_cached
     = (Inr (arr [1] [Some 0]), ex_SFD_cached\<lparr>priv_flux0 := Some (arr [1] [Some 0])\<rparr>)
   \<and> fluxes ex_SFD_cached
     = (Inr (arr [1] [Some 0], arr [1] [Some (119 / 60)],
               arr [1] [Some (2365 / 432)], arr [1] [Some (191 / 432)]),
          ex_SFD_cached\<lparr>priv_flux0 := Some (arr [1] [Some 0]),
                priv_flux1 := Some (arr [1] [Some (119 / 60)]),
                priv_flux3 := Some (arr [1] [Some (2365 / 432)]),
                priv_flux4 := Some (arr [1] [Some (191 / 432)])\<rparr>)
   \<and> fluxes (ex_SFD_cached\<lparr>priv_flux0 := Some (arr [1] [Some 0]),
                priv_flux1 := Some (arr [1] [Some (119 / 60)]),
                priv_flux3 := Some (arr [1] [Some (2365 / 432)]),
                priv_flux4 := Some (arr [1] [Some (191 / 432)])\<rparr>)
     = (Inr (arr [1] [Some 0], arr [1] [Some (119 / 60)],
               arr [1] [Some (2365 / 432)], arr [1] [Some (191 / 432)]),
          ex_SFD_cached\<lparr>priv_flux0 := Some (arr [1] [Some 0]),
                priv_flux1 := Some (arr [1] [Some (119 / 60)]),
                priv_flux3 := Some (arr [1] [Some (2365 / 432)]),
                priv_flux4 := Some (arr [1] [Some (191 / 432)])\<rparr>)
   \<and> fluxes ex_axis2_SFD
     = (Inl (AxisError 2 2),
        ex_axis2_SFD\<lparr>priv_flux0 := Some (arr [1] [Some (208 / 5)]),
              priv_flux1 := Some (arr [1] [Some (119 / 60)])\<rparr>)
   \<and> priv_flux4 (snd (fluxes ex_axis2_SFD)) = None
   \<and> calc_flux4 ex_axis2_SFD = Inr (arr [1] [Some (191 / 432)])
   \<and> fluxes ex_axis7_SFD = (Inl (AxisError 7 3), ex_axis7_SFD)
   \<and> fluxes (ex_axis7_SFD\<lparr>priv_flux0 := Some (arr [1] [Some 0])\<rparr>)
     = (Inl (AxisError 7 3), ex_axis7_SFD\<lparr>priv_flux0 := Some (arr [1] [Some 0])\<rparr>)
   \<and> fluxes (ex_axis7_SFD\<lparr>priv_flux0 := Some (arr [1] [Some 0]),
                priv_flux1 := Some (arr [1] [Some 1]), priv_flux3 := Some (arr [1] [Some 2])\<rparr>)
     = (Inl (AxisError 7 3),
        ex_axis7_SFD\<lparr>priv_flux0 := Some (arr [1] [Some 0]),
                priv_flux1 := Some (arr [1] [Some 1]), priv_flux3 := Some (arr [1] [Some 2])\<rparr>)"
proof -
  have c1: "cache_or_compute (priv_flux0 ex_SFD_cached) (calc_flux1 ex_SFD_cached)
      = Inr (arr [1] [Some 0])"
    by code_simp
  have c2: "cache_or_compute (priv_flux1 ex_SFD_cached) (calc_flux2 ex_SFD_cached)
      = Inr (arr [1] [Some (119 / 60)])"
    by code_simp
  have c3: "cache_or_compute (priv_flux3 ex_SFD_cached) (calc_flux3 ex_SFD_cached)
      = Inr (arr [1] [Some (2365 / 432)])"
    by code_simp
  have c4: "cache_or_compute (priv_flux4 ex_SFD_cached) (calc_flux4 ex_SFD_cached)
      = Inr (arr [1] [Some (191 / 432)])"
    by code_simp
  have d1: "cache_or_compute (priv_flux0 ex_axis2_SFD) (calc_flux1 ex_axis2_SFD)
      = Inr (arr [1] [Some (208 / 5)])"
    by code_simp
  have d2: "cache_or_compute (priv_flux1 ex_axis2_SFD) (calc_flux2 ex_axis2_SFD)
      = Inr (arr [1] [Some (119 / 60)])"
    by code_simp
  have d3: "cache_or_compute (priv_flux3 ex_axis2_SFD) (calc_flux3 ex_axis2_SFD)
      = Inl (AxisError 2 2)"
    by code_simp
  have d4: "calc_flux4 ex_axis2_SFD = Inr (arr [1] [Some (191 / 432)])"
    by code_simp
  have e1: "cache_or_compute (priv_flux0 ex_axis7_SFD) (calc_flux1 ex_axis7_SFD)
      = Inl (AxisError 7 3)"
    by code_simp
  let ?g = "ex_axis7_SFD\<lparr>priv_flux0 := Some (arr [1] [Some 0])\<rparr>"
  have g1: "cache_or_compute (priv_flux0 ?g) (calc_flux1 ?g) = Inr (arr [1] [Some 0])"
    by code_simp
  have g2: "cache_or_compute (priv_flux1 ?g) (calc_flux2 ?g) = Inl (AxisError 7 3)"
    by code_simp
  let ?h = "ex_axis7_SFD\<lparr>priv_flux0 := Some (arr [1] [Some 0]),
                priv_flux1 := Some (arr [1] [Some 1]), priv_flux3 := Some (arr [1] [Some 2])\<rparr>"
  have h1: "cache_or_compute (priv_flux0 ?h) (calc_flux1 ?h) = Inr (arr [1] [Some 0])"
    by code_simp
  have h2: "cache_or_compute (priv_flux1 ?h) (calc_flux2 ?h) = Inr (arr [1] [Some 1])"
    by code_simp
  have h3: "cache_or_compute (priv_flux3 ?h) (calc_flux3 ?h) = Inr (arr [1] [Some 2])"
    by code_simp
  have h4: "cache_or_compute (priv_flux4 ?h) (calc_flux4 ?h) = Inl (AxisError 7 3)"
    by code_simp
  have p4: "priv_flux4 ex_axis2_SFD = None"
    by (simp add: ex_axis2_SFD_def new_SFD_def)
  have A: "flux1 ex_SFD_cached
      = (Inr (arr [1] [Some 0]), ex_SFD_cached\<lparr>priv_flux0 := Some (arr [1] [Some 0])\<rparr>)
    \<and> fluxes ex_SFD_cached
      = (Inr (arr [1] [Some 0], arr [1] [Some (119 / 60)],
               arr [1] [Some (2365 / 432)], arr [1] [Some (191 / 432)]),
          ex_SFD_cached\<lparr>priv_flux0 := Some (arr [1] [Some 0]),
                priv_flux1 := Some (arr [1] [Some (119 / 60)]),
                priv_flux3 := Some (arr [1] [Some (2365 / 432)]),
                priv_flux4 := Some (arr [1] [Some (191 / 432)])\<rparr>)
    \<and> fluxes (ex_SFD_cached\<lparr>priv_flux0 := Some (arr [1] [Some 0]),
                priv_flux1 := Some (arr [1] [Some (119 / 60)]),
                priv_flux3 := Some (arr [1] [Some (2365 / 432)]),
                priv_flux4 := Some (arr [1] [Some (191 / 432)])\<rparr>)
      = (Inr (arr [1] [Some 0], arr [1] [Some (119 / 60)],
               arr [1] [Some (2365 / 432)], arr [1] [Some (191 / 432)]),
          ex_SFD_cached\<lparr>priv_flux0 := Some (arr [1] [Some 0]),
                priv_flux1 := Some (arr [1] [Some (119 / 60)]),
                priv_flux3 := Some (arr [1] [Some (2365 / 432)]),
                priv_flux4 := Some (arr [1] [Some (191 / 432)])\<rparr>)"
    using fluxes_memoized [of ex_SFD_cached "arr [1] [Some 0]" "arr [1] [Some (119 / 60)]"
        "arr [1] [Some (2365 / 432)]" "arr [1] [Some (191 / 432)]" undefined] c1 c2 c3 c4
    by simp
  have B: "fluxes ex_axis2_SFD
      = (Inl (AxisError 2 2),
         ex_axis2_SFD\<lparr>priv_flux0 := Some (arr [1] [Some (208 / 5)]),
              priv_flux1 := Some (arr [1] [Some (119 / 60)])\<rparr>)"
    using fluxes_memoized [of ex_axis2_SFD "arr [1] [Some (208 / 5)]" "arr [1] [Some (119 / 60)]"
        undefined undefined "AxisError 2 2"] d1 d2 d3
    by simp
  have C: "fluxes ex_axis7_SFD = (Inl (AxisError 7 3), ex_axis7_SFD)"
    using fluxes_memoized [of ex_axis7_SFD undefined undefined undefined undefined
        "AxisError 7 3"] e1
    by simp
  have D: "fluxes ?g = (Inl (AxisError 7 3), ?g)"
    using fluxes_memoized [of ?g "arr [1] [Some 0]" undefined undefined undefined
        "AxisError 7 3"] g1 g2
    by simp
  have E: "fluxes ?h = (Inl (AxisError 7 3), ?h)"
    using fluxes_memoized [of ?h "arr [1] [Some 0]" "arr [1] [Some 1]" "arr [1] [Some 2]"
        undefined "AxisError 7 3"] h1 h2 h3 h4
    by simp
  show ?thesis
    using A B C D E d4 by (simp add: p4)
qed

section \<open>The fluxes on unmasked entries, for the default axes\<close>

lemma priv_calc_flux_dense:
  assumes fl: "dense_on P0 (flow self) sh0 u" and sa: "dense_on P0 (salinity self) sh0 v"
    and fc: "\<And>x w. dense_on P0 x sh0 w \<Longrightarrow> \<exists>r. f_comp x = Inr r \<and> dense_on P r sh (C w)"
    and fa: "\<exists>r. f_cross_section (cross_section self) = Inr r \<and> dense_on P r sh A"
  shows "\<exists>r. priv_calc_flux self f_comp f_cross_section = Inr r
           \<and> dense_on P r sh (\<lambda>idx. C u idx * C v idx * A idx)"
proof -
  from fc [OF fl] obtain ca where ca: "f_comp (flow self) = Inr ca" "dense_on P ca sh (C u)"
    by blast
  from fc [OF sa] obtain cb where cb: "f_comp (salinity self) = Inr cb" "dense_on P cb sh (C v)"
    by blast
  from dense_binop [OF ca(2) cb(2), of "(*)"] obtain ab
    where ab: "ma_mul ca cb = Inr ab" "dense_on P ab sh (\<lambda>idx. C u idx * C v idx)"
    by (auto simp: ma_mul_def)
  from fa obtain c where c: "f_cross_section (cross_section self) = Inr c" "dense_on P c sh A"
    by blast
  from dense_binop [OF ab(2) c(2), of "(*)"] obtain r
    where r: "ma_mul ab c = Inr r" "dense_on P r sh (\<lambda>idx. C u idx * C v idx * A idx)"
    by (auto simp: ma_mul_def)
  show ?thesis
    by (simp add: priv_calc_flux_def ca(1) cb(1) ab(1) c(1) r ebind_Inr)
qed

lemma calc_flux1_dense:
  assumes t: "time_axis self = 0" and d: "depth_axis self = - 1"
    and fl: "dense_on (loc G 1 s) (flow self) [T, S, D] u"
    and sa: "dense_on (loc G 1 s) (salinity self) [T, S, D] v"
    and cs: "dense_on (loc G 1 s) (cross_section self) [T, S, D] a"
    and T: "G \<Longrightarrow> 0 < T"
    and nz1: "G \<Longrightarrow> mean_first T (sum_last D a) [s] \<noteq> 0"
  shows "\<exists>r. calc_flux1 self = Inr r \<and> dense_on (loc G 0 s) r [S] (val_flux1 T D a u v)"
proof -
  have "\<exists>r. priv_calc_flux self (component1 self) (avg_time_int_depth self) = Inr r
          \<and> dense_on (loc G 0 s) r [S]
              (\<lambda>idx. val_comp1 T D a u idx * val_comp1 T D a v idx
                       * mean_first T (sum_last D a) idx)"
    using fl sa
  proof (rule priv_calc_flux_dense)
    show "\<exists>r. component1 self x = Inr r \<and> dense_on (loc G 0 s) r [S] (val_comp1 T D a w)"
      if "dense_on (loc G 1 s) x [T, S, D] w" for x w
      using component1_dense [OF t d cs that T nz1] .
    show "\<exists>r. avg_time_int_depth self (cross_section self) = Inr r
            \<and> dense_on (loc G 0 s) r [S] (mean_first T (sum_last D a))"
      using avg_time_int_depth_dense [OF t d cs T] .
  qed
  then obtain r where r: "priv_calc_flux self (component1 self) (avg_time_int_depth self) = Inr r"
    "dense_on (loc G 0 s) r [S]
       (\<lambda>idx. val_comp1 T D a u idx * val_comp1 T D a v idx * mean_first T (sum_last D a) idx)"
    by blast
  have "dense_on (loc G 0 s) r [S] (val_flux1 T D a u v)"
    using r(2) by (rule dense_on_weaken) (simp add: val_flux1_def)
  then show ?thesis
    by (simp add: calc_flux1_def r(1))
qed

lemma calc_flux2_dense:
  assumes t: "time_axis self = 0" and d: "depth_axis self = - 1"
    and fl: "dense_on (loc G 1 s) (flow self) [T, S, D] u"
    and sa: "dense_on (loc G 1 s) (salinity self) [T, S, D] v"
    and cs: "dense_on (loc G 1 s) (cross_section self) [T, S, D] a"
    and T: "G \<Longrightarrow> 0 < T"
    and nz1: "G \<Longrightarrow> mean_first T (sum_last D a) [s] \<noteq> 0"
    and nz2: "\<And>j. G \<Longrightarrow> j < T \<Longrightarrow> sum_last D a [j, s] \<noteq> 0"
  shows "\<exists>r. calc_flux2 self = Inr r \<and> dense_on (loc G 0 s) r [S] (val_flux2 T D a u v)"
proof -
  have "\<exists>r. priv_calc_flux self (\<lambda>x. component2 self x None) (int_depth self) = Inr r
          \<and> dense_on (loc G 1 s) r [T, S]
              (\<lambda>idx. val_comp2 T D a u idx * val_comp2 T D a v idx * sum_last D a idx)"
    using fl sa
  proof (rule priv_calc_flux_dense)
    show "\<exists>r. component2 self x None = Inr r \<and> dense_on (loc G 1 s) r [T, S] (val_comp2 T D a w)"
      if "dense_on (loc G 1 s) x [T, S, D] w" for x w
      using component2_default_dense [OF t d cs that T nz1 nz2] .
    show "\<exists>r. int_depth self (cross_section self) = Inr r
            \<and> dense_on (loc G 1 s) r [T, S] (sum_last D a)"
      using int_depth_dense3 [OF d cs] .
  qed
  then obtain p where p: "priv_calc_flux self (\<lambda>x. component2 self x None) (int_depth self) = Inr p"
    "dense_on (loc G 1 s) p [T, S]
       (\<lambda>idx. val_comp2 T D a u idx * val_comp2 T D a v idx * sum_last D a idx)"
    by blast
  from avg_time_dense2 [OF t p(2) T] show ?thesis
    by (simp add: calc_flux2_def p(1) ebind_Inr val_flux2_def)
qed

lemma calc_flux3_dense:
  assumes t: "time_axis self = 0" and d: "depth_axis self = - 1"
    and fl: "dense_on (loc G 1 s) (flow self) [T, S, D] u"
    and sa: "dense_on (loc G 1 s) (salinity self) [T, S, D] v"
    and cs: "dense_on (loc G 1 s) (cross_section self) [T, S, D] a"
    and T: "G \<Longrightarrow> 0 < T"
    and nz1: "G \<Longrightarrow> mean_first T (sum_last D a) [s] \<noteq> 0"
    and nz2: "\<And>j. G \<Longrightarrow> j < T \<Longrightarrow> sum_last D a [j, s] \<noteq> 0"
    and nz3: "\<And>j. G \<Longrightarrow> j < D \<Longrightarrow> mean_first T a [s, j] \<noteq> 0"
  shows "\<exists>r. calc_flux3 self = Inr r \<and> dense_on (loc G 0 s) r [S] (val_flux3 T D a u v)"
proof -
  have "\<exists>r. priv_calc_flux self (\<lambda>x. component3 self x False) (avg_time self) = Inr r
          \<and> dense_on (loc G 0 s) r [S, D]
              (\<lambda>idx. val_comp3 T D a u idx * val_comp3 T D a v idx * mean_first T a idx)"
    using fl sa
  proof (rule priv_calc_flux_dense)
    show "\<exists>r. component3 self x False = Inr r
            \<and> dense_on (loc G 0 s) r [S, D] (val_comp3 T D a w)"
      if "dense_on (loc G 1 s) x [T, S, D] w" for x w
      using component3_default_dense [OF t d cs that T nz1 nz2 nz3] .
    show "\<exists>r. avg_time self (cross_section self) = Inr r
            \<and> dense_on (loc G 0 s) r [S, D] (mean_first T a)"
      using avg_time_dense3 [OF t cs T] .
  qed
  then obtain p where p: "priv_calc_flux self (\<lambda>x. component3 self x False) (avg_time self) = Inr p"
    "dense_on (loc G 0 s) p [S, D]
       (\<lambda>idx. val_comp3 T D a u idx * val_comp3 T D a v idx * mean_first T a idx)"
    by blast
  from int_depth_dense2 [OF d p(2)] show ?thesis
    by (simp add: calc_flux3_def p(1) ebind_Inr val_flux3_def)
qed

lemma calc_flux4_dense:
  assumes t: "time_axis self = 0" and d: "depth_axis self = - 1"
    and fl: "dense_on (loc G 1 s) (flow self) [T, S, D] u"
    and sa: "dense_on (loc G 1 s) (salinity self) [T, S, D] v"
    and cs: "dense_on (loc G 1 s) (cross_section self) [T, S, D] a"
    and T: "G \<Longrightarrow> 0 < T"
    and nz1: "G \<Longrightarrow> mean_first T (sum_last D a) [s] \<noteq> 0"
    and nz2: "\<And>j. G \<Longrightarrow> j < T \<Longrightarrow> sum_last D a [j, s] \<noteq> 0"
    and nz3: "\<And>j. G \<Longrightarrow> j < D \<Longrightarrow> mean_first T a [s, j] \<noteq> 0"
  shows "\<exists>r. calc_flux4 self = Inr r \<and> dense_on (loc G 0 s) r [S] (val_flux4 T D a u v)"
proof -
  have "\<exists>r. priv_calc_flux self (\<lambda>x. component4 self x False None) Inr = Inr r
          \<and> dense_on (loc G 1 s) r [T, S, D]
              (\<lambda>idx. val_comp4 T D a u idx * val_comp4 T D a v idx * a idx)"
    using fl sa
  proof (rule priv_calc_flux_dense)
    show "\<exists>r. component4 self x False None = Inr r
            \<and> dense_on (loc G 1 s) r [T, S, D] (val_comp4 T D a w)"
      if "dense_on (loc G 1 s) x [T, S, D] w" for x w
      using component4_default_dense [OF t d cs that T nz1 nz2 nz3] .
    show "\<exists>r. Inr (cross_section self) = Inr r \<and> dense_on (loc G 1 s) r [T, S, D] a"
      using cs by simp
  qed
  then obtain p where p: "priv_calc_flux self (\<lambda>x. component4 self x False None) Inr = Inr p"
    "dense_on (loc G 1 s) p [T, S, D]
       (\<lambda>idx. val_comp4 T D a u idx * val_comp4 T D a v idx * a idx)"
    by blast
  from avg_time_int_depth_dense [OF t d p(2) T] show ?thesis
    by (simp add: calc_flux4_def p(1) ebind_Inr val_flux4_def)
qed


lemma fluxes_dense:
  assumes t: "time_axis self = 0" and d: "depth_axis self = - 1"
    and fresh: "priv_flux0 self = None" "priv_flux1 self = None"
      "priv_flux3 self = None" "priv_flux4 self = None"
    and fl: "dense_on (loc G 1 s) (flow self) [T, S, D] u"
    and sa: "dense_on (loc G 1 s) (salinity self) [T, S, D] v"
    and cs: "dense_on (loc G 1 s) (cross_section self) [T, S, D] a"
    and T: "G \<Longrightarrow> 0 < T"
    and nz1: "G \<Longrightarrow> mean_first T (sum_last D a) [s] \<noteq> 0"
    and nz2: "\<And>j. G \<Longrightarrow> j < T \<Longrightarrow> sum_last D a [j, s] \<noteq> 0"
    and nz3: "\<And>j. G \<Longrightarrow> j < D \<Longrightarrow> mean_first T a [s, j] \<noteq> 0"
  shows "\<exists>f1 f2 f3 f4.
      fluxes self = (Inr (f1, f2, f3, f4),
        self\<lparr>priv_flux0 := Some f1, priv_flux1 := Some f2,
              priv_flux3 := Some f3, priv_flux4 := Some f4\<rparr>)
      \<and> fst (flux1 self) = Inr f1 \<and> fst (flux2 self) = Inr f2
      \<and> fst (flux3 self) = Inr f3 \<and> fst (flux4 self) = Inr f4
      \<and> dense_on (loc G 0 s) f1 [S] (val_flux1 T D a u v)
      \<and> dense_on (loc G 0 s) f2 [S] (val_flux2 T D a u v)
      \<and> dense_on (loc G 0 s) f3 [S] (val_flux3 T D a u v)
      \<and> dense_on (loc G 0 s) f4 [S] (val_flux4 T D a u v)"
proof -
  from calc_flux1_dense [OF t d fl sa cs T nz1] obtain f1
    where f1: "calc_flux1 self = Inr f1" "dense_on (loc G 0 s) f1 [S] (val_flux1 T D a u v)"
    by blast
  from calc_flux2_dense [OF t d fl sa cs T nz1 nz2] obtain f2
    where f2: "calc_flux2 self = Inr f2" "dense_on (loc G 0 s) f2 [S] (val_flux2 T D a u v)"
    by blast
  from calc_flux3_dense [OF t d fl sa cs T nz1 nz2 nz3] obtain f3
    where f3: "calc_flux3 self = Inr f3" "dense_on (loc G 0 s) f3 [S] (val_flux3 T D a u v)"
    by blast
  from calc_flux4_dense [OF t d fl sa cs T nz1 nz2 nz3] obtain f4
    where f4: "calc_flux4 self = Inr f4" "dense_on (loc G 0 s) f4 [S] (val_flux4 T D a u v)"
    by blast
  let ?s1 = "self\<lparr>priv_flux0 := Some f1\<rparr>"
  let ?s2 = "?s1\<lparr>priv_flux1 := Some f2\<rparr>"
  let ?s3 = "?s2\<lparr>priv_flux3 := Some f3\<rparr>"
  let ?s4 = "?s3\<lparr>priv_flux4 := Some f4\<rparr>"
  have a1: "flux1 self = (Inr f1, ?s1)"
    by (rule flux1_step) (simp add: fresh f1(1))
  have a2: "flux2 ?s1 = (Inr f2, ?s2)"
    by (rule flux2_step) (simp add: fresh f2(1) calc_flux_cache_frame)
  have a3: "flux3 ?s2 = (Inr f3, ?s3)"
    by (rule flux3_step) (simp add: fresh f3(1) calc_flux_cache_frame)
  have a4: "flux4 ?s3 = (Inr f4, ?s4)"
    by (rule flux4_step) (simp add: fresh f4(1) calc_flux_cache_frame)
  have "fluxes self = (Inr (f1, f2, f3, f4), ?s4)"
    using a1 a2 a3 a4 by (rule fluxes_steps)
  moreover have "fst (flux2 self) = Inr f2"
    using flux2_step [of self f2] by (simp add: fresh f2(1))
  moreover have "fst (flux3 self) = Inr f3"
    using flux3_step [of self f3] by (simp add: fresh f3(1))
  moreover have "fst (flux4 self) = Inr f4"
    using flux4_step [of self f4] by (simp add: fresh f4(1))
  ultimately show ?thesis
    using a1 f1(2) f2(2) f3(2) f4(2) by auto
qed

section \<open>The four fluxes add up to the total\<close>





section \<open>The shapes of the fluxes\<close>

lemma dense_on_shape_only: "dense_on (loc False k s) a sh u \<longleftrightarrow> shape a = sh"
  by (simp add: dense_on_def loc_def)

lemma init_default:
  "shape f = sh \<Longrightarrow> shape sa = sh \<Longrightarrow> shape c = sh
     \<Longrightarrow> init f sa c Map.empty = Inr (new_SFD f sa c 0 (- 1))"
  by (simp add: init_def new_SFD_def kwargs_get_def)

lemma new_SFD_fields:
  "flow (new_SFD f sa c t d) = f" "salinity (new_SFD f sa c t d) = sa"
  "cross_section (new_SFD f sa c t d) = c" "time_axis (new_SFD f sa c t d) = t"
  "depth_axis (new_SFD f sa c t d) = d" "priv_flux0 (new_SFD f sa c t d) = None"
  "priv_flux1 (new_SFD f sa c t d) = None" "priv_flux3 (new_SFD f sa c t d) = None"
  "priv_flux4 (new_SFD f sa c t d) = None"
  by (simp_all add: new_SFD_def)

lemma new_SFD_fluxes:
  assumes "shape f = [T, S, D]" and "shape sa = [T, S, D]" and "shape c = [T, S, D]"
  shows "\<exists>f1 f2 f3 f4 st. fluxes (new_SFD f sa c 0 (- 1)) = (Inr (f1, f2, f3, f4), st)
     \<and> fst (flux1 (new_SFD f sa c 0 (- 1))) = Inr f1
     \<and> fst (flux2 (new_SFD f sa c 0 (- 1))) = Inr f2
     \<and> fst (flux3 (new_SFD f sa c 0 (- 1))) = Inr f3
     \<and> fst (flux4 (new_SFD f sa c 0 (- 1))) = Inr f4
     \<and> shape f1 = [S] \<and> shape f2 = [S] \<and> shape f3 = [S] \<and> shape f4 = [S]"
proof -
  let ?o = "new_SFD f sa c 0 (- 1)"
  have "\<exists>f1 f2 f3 f4.
      fluxes ?o = (Inr (f1, f2, f3, f4),
        ?o\<lparr>priv_flux0 := Some f1, priv_flux1 := Some f2,
            priv_flux3 := Some f3, priv_flux4 := Some f4\<rparr>)
      \<and> fst (flux1 ?o) = Inr f1 \<and> fst (flux2 ?o) = Inr f2
      \<and> fst (flux3 ?o) = Inr f3 \<and> fst (flux4 ?o) = Inr f4
      \<and> dense_on (loc False 0 0) f1 [S] (val_flux1 T D (\<lambda>_. 0) (\<lambda>_. 0) (\<lambda>_. 0))
      \<and> dense_on (loc False 0 0) f2 [S] (val_flux2 T D (\<lambda>_. 0) (\<lambda>_. 0) (\<lambda>_. 0))
      \<and> dense_on (loc False 0 0) f3 [S] (val_flux3 T D (\<lambda>_. 0) (\<lambda>_. 0) (\<lambda>_. 0))
      \<and> dense_on (loc False 0 0) f4 [S] (val_flux4 T D (\<lambda>_. 0) (\<lambda>_. 0) (\<lambda>_. 0))"
    by (rule fluxes_dense) (simp_all add: new_SFD_fields dense_on_shape_only assms)
  then show ?thesis
    by (auto simp: dense_on_shape_only)
qed

text \<open>
  Claim C4. For three fields of shape \<open>(T, S, D)\<close> and the default axes (time 0, depth
  last), the instance is constructed, \<open>fluxes\<close> returns a tuple of four arrays, each of shape
  \<open>(S,)\<close>, and its members are what \<open>flux1\<close>, \<open>flux2\<close>, \<open>flux3\<close> and \<open>flux4\<close> return, in this
  order. Nothing is asked of the entries: they may be masked, and any of \<open>T\<close>, \<open>S\<close>, \<open>D\<close> may
  be zero.
\<close>

theorem fluxes_shape:
  assumes "shape flow0 = [T, S, D]" and "shape salinity0 = [T, S, D]"
    and "shape cross_section0 = [T, S, D]"
  shows "\<exists>obj f1 f2 f3 f4 obj'.
      init flow0 salinity0 cross_section0 Map.empty = Inr obj
      \<and> fluxes obj = (Inr (f1, f2, f3, f4), obj')
      \<and> fst (flux1 obj) = Inr f1 \<and> fst (flux2 obj) = Inr f2
      \<and> fst (flux3 obj) = Inr f3 \<and> fst (flux4 obj) = Inr f4
      \<and> shape f1 = [S] \<and> shape f2 = [S] \<and> shape f3 = [S] \<and> shape f4 = [S]"
  using new_SFD_fluxes [OF assms] init_default [OF assms] by blast

theorem fluxes_shape_witness:
  "\<exists>obj f1 f2 f3 f4 obj'.
      init (full [10, 10, 10] (Some 1)) (full [10, 10, 10] (Some 30))
        (full [10, 10, 10] (Some 1)) Map.empty = Inr obj
      \<and> fluxes obj = (Inr (f1, f2, f3, f4), obj')
      \<and> fst (flux1 obj) = Inr f1 \<and> fst (flux2 obj) = Inr f2
      \<and> fst (flux3 obj) = Inr f3 \<and> fst (flux4 obj) = Inr f4
      \<and> shape f1 = [10] \<and> shape f2 = [10] \<and> shape f3 = [10] \<and> shape f4 = [10]"
  by (rule fluxes_shape) (simp_all add: shape_full)

section \<open>The axes of the reductions\<close>

text \<open>
  With the default axes the index of the time axis is the same before and after the
  depth axis is removed, and the code agrees with the reduction of the specification.
\<close>

lemma avg_time_int_depth_default:
  assumes "time_axis self = 0" and "depth_axis self = - 1" and "shape x = [T, S, D]"
  shows "avg_time_int_depth self x = avg_time_int_depth_spec 0 (- 1) x"
proof -
  have "ma_sum x 2 = ma_sum x (- 1)"
    using assms(3) by (simp add: ma_sum_def reduce_axis_def normalize_axis_index_def)
  moreover have "avg_time self = (\<lambda>s. ma_mean s 0)"
    using assms(1) by (intro ext) (simp add: avg_time_def)
  ultimately show ?thesis
    using assms
    by (simp add: avg_time_int_depth_def avg_time_int_depth_spec_def int_depth_def
        normalize_axis_index_def ebind_Inr)
qed

text \<open>
  Claim C5, at an input where it fails. The field \<open>ex_dts\<close> has its depth on axis 0 and its
  time on axis 1, and the instance is constructed with \<open>time_axis = 1\<close> and \<open>depth_axis = 0\<close>.
  Summed over the depth and averaged over the time, the field is (22, 33), which
  is what the reduction of the specification gives. \<open>avg_time_int_depth\<close> sums over axis 0
  and then averages over axis 1 of the result, by then the space axis: it returns
  (33/2, 77/2).
\<close>

theorem avg_time_int_depth_wrong_axis:
  "avg_time_int_depth ex_dts_SFD ex_dts = Inr (arr [2] [Some (33 / 2), Some (77 / 2)])
   \<and> avg_time_int_depth_spec 1 0 ex_dts = Inr (arr [2] [Some 22, Some 33])"
  by code_simp

section \<open>The first flux\<close>

text \<open>
  Claim C2 fails as stated. On the instance \<open>ex_SFD\<close>, \<open>flux1\<close> is the array (208/5) of shape
  (1,), whereas the formula of the claim, with \<open>avg_time_int_depth\<close> applied to the product,
  raises an \<open>AxisError\<close>: the product has the space axis only.
\<close>

theorem flux1_outer_reduction_counterexample:
  "fst (flux1 ex_SFD) = Inr (arr [1] [Some (208 / 5)])
   \<and> ebind (component1 ex_SFD (flow ex_SFD)) (\<lambda>a.
       ebind (component1 ex_SFD (salinity ex_SFD)) (\<lambda>b.
       ebind (ma_mul a b) (\<lambda>ab.
       ebind (avg_time_int_depth ex_SFD (cross_section ex_SFD)) (\<lambda>c.
       ebind (ma_mul ab c) (avg_time_int_depth ex_SFD))))) = Inl (AxisError 0 0)"
  by code_simp

lemma flux1_fresh: "priv_flux0 self = None \<Longrightarrow> fst (flux1 self) = calc_flux1 self"
  by (cases "calc_flux1 self") (simp_all add: flux1_def memo_def)

lemma avg_time_int_depth_rank1:
  assumes "time_axis self = 0" and "depth_axis self = - 1" and "shape f = [S]"
  shows "avg_time_int_depth self f = Inl (AxisError 0 0)"
proof -
  have "shape f = [] @ [S]"
    using assms(3) by simp
  then have "ma_sum f (- 1) = Inr (mk [] (\<lambda>idx. msum (map (\<lambda>j. item f (idx @ [j])) [0..<S])))"
    unfolding ma_sum_def by (rule reduce_axis_last)
  then show ?thesis
    by (simp add: avg_time_int_depth_def int_depth_def avg_time_def assms(1,2) ebind_Inr
        ma_mean_def reduce_axis_def shape_mk normalize_axis_index_def)
qed

text \<open>
  Claim C2, amended. On every instance, whatever its axes, the first access to \<open>flux1\<close> gives
  the product \<open>component1(flow) * component1(salinity) * avg_time_int_depth(cross_section)\<close>
  itself (or the exception it raises), with no reduction applied to it. For fields of shape
  \<open>(T, S, D)\<close> and the default axes this product is an array of shape \<open>(S,)\<close>, on which
  \<open>avg_time_int_depth\<close> raises an \<open>AxisError\<close>.
\<close>

theorem flux1_is_product:
  assumes "init flow0 salinity0 cross_section0 kwargs = Inr obj"
  shows "fst (flux1 obj)
      = ebind (component1 obj (flow obj)) (\<lambda>a.
        ebind (component1 obj (salinity obj)) (\<lambda>b.
        ebind (ma_mul a b) (\<lambda>ab.
        ebind (avg_time_int_depth obj (cross_section obj)) (\<lambda>c.
        ma_mul ab c))))
    \<and> (shape flow0 = [T, S, D] \<and> kwargs ''time_axis'' = None \<and> kwargs ''depth_axis'' = None
        \<longrightarrow> (\<exists>f. fst (flux1 obj) = Inr f \<and> shape f = [S]
              \<and> avg_time_int_depth obj f = Inl (AxisError 0 0)))"
proof (intro conjI impI)
  from assms have obj: "obj = new_SFD flow0 salinity0 cross_section0
      (kwargs_get kwargs ''time_axis'' 0) (kwargs_get kwargs ''depth_axis'' (- 1))"
    and sh: "shape salinity0 = shape flow0" "shape cross_section0 = shape flow0"
    by (auto simp: init_def new_SFD_def split: if_splits)
  show "fst (flux1 obj)
      = ebind (component1 obj (flow obj)) (\<lambda>a.
        ebind (component1 obj (salinity obj)) (\<lambda>b.
        ebind (ma_mul a b) (\<lambda>ab.
        ebind (avg_time_int_depth obj (cross_section obj)) (\<lambda>c.
        ma_mul ab c))))"
    by (simp add: flux1_fresh obj new_SFD_fields calc_flux1_def priv_calc_flux_def)
  assume "shape flow0 = [T, S, D] \<and> kwargs ''time_axis'' = None \<and> kwargs ''depth_axis'' = None"
  then have a: "shape flow0 = [T, S, D]" and o: "obj = new_SFD flow0 salinity0 cross_section0 0 (- 1)"
    by (simp_all add: obj kwargs_get_def)
  from new_SFD_fluxes [of flow0 T S D salinity0 cross_section0] a sh
  obtain f where f: "fst (flux1 obj) = Inr f" "shape f = [S]"
    unfolding o by auto
  moreover have "avg_time_int_depth obj f = Inl (AxisError 0 0)"
    by (rule avg_time_int_depth_rank1) (simp_all add: o new_SFD_fields f(2))
  ultimately show "\<exists>f. fst (flux1 obj) = Inr f \<and> shape f = [S]
      \<and> avg_time_int_depth obj f = Inl (AxisError 0 0)"
    by blast
qed

theorem flux1_is_product_witness:
  "fst (flux1 ex_SFD) = Inr (arr [1] [Some (208 / 5)])
   \<and> ebind (component1 ex_SFD (flow ex_SFD)) (\<lambda>a.
       ebind (component1 ex_SFD (salinity ex_SFD)) (\<lambda>b.
       ebind (ma_mul a b) (\<lambda>ab.
       ebind (avg_time_int_depth ex_SFD (cross_section ex_SFD)) (\<lambda>c.
       ma_mul ab c)))) = Inr (arr [1] [Some (208 / 5)])
   \<and> avg_time_int_depth ex_SFD (arr [1] [Some (208 / 5)]) = Inl (AxisError 0 0)"
proof -
  have i: "init ex_flow ex_salinity ex_area Map.empty = Inr ex_SFD"
    by code_simp
  have v: "fst (flux1 ex_SFD) = Inr (arr [1] [Some (208 / 5)])"
    by code_simp
  have "shape ex_flow = [2, 1, 2]"
    by (simp add: ex_flow_def arr_def)
  with flux1_is_product [OF i, of 2 1 2] v show ?thesis
    by auto
qed

section \<open>The division by the reduced area\<close>

lemma safe_divide_masked:
  "safe_divide x None = None" "safe_divide x (Some 0) = None"
  by (simp_all add: safe_divide_def split: option.splits)

text \<open>
  Claim C6. In \<open>_component\<close>, whatever the field and the reduction function: once the two
  reductions have returned (arrays of one shape), the division raises nothing, and at
  every location where the reduced area is zero or masked the result is masked; it is
  never a number there, zero or other.
\<close>

theorem component_division_masks:
  assumes p: "ma_mul variable (cross_section self) = Inr p"
    and num: "func p = Inr num" and den: "func (cross_section self) = Inr den"
    and sh: "shape num = shape den"
  shows "\<exists>r. priv_component self func variable = Inr r \<and> shape r = shape den
    \<and> (\<forall>idx. in_range (shape den) idx \<and> (item den idx = None \<or> item den idx = Some 0)
          \<longrightarrow> item r idx = None)"
proof -
  let ?r = "mk (shape den) (\<lambda>idx. safe_divide (item num idx) (item den idx))"
  have "ma_div num den = Inr ?r"
    unfolding ma_div_def using sh by (intro binop_same) simp_all
  then have "priv_component self func variable = Inr ?r"
    by (simp add: priv_component_def p num den ebind_Inr)
  moreover have "item ?r idx = None"
    if "in_range (shape den) idx" "item den idx = None \<or> item den idx = Some 0" for idx
    using that by (auto simp: item_mk safe_divide_masked)
  ultimately show ?thesis
    by (auto simp: shape_mk)
qed

theorem component_division_masks_witness:
  "int_depth ex_zero_SFD (cross_section ex_zero_SFD) = Inr (arr [2, 1] [Some 0, None])
   \<and> priv_component ex_zero_SFD (int_depth ex_zero_SFD) ex_flow = Inr (arr [2, 1] [None, None])
   \<and> item (arr [2, 1] [None, None]) [0, 0] = None
   \<and> item (arr [2, 1] [None, None]) [1, 0] = None"
proof -
  have p: "ma_mul ex_flow (cross_section ex_zero_SFD)
      = Inr (arr [2, 1, 2] [Some 0, Some 0, None, None])"
    by code_simp
  have num: "int_depth ex_zero_SFD (arr [2, 1, 2] [Some 0, Some 0, None, None])
      = Inr (arr [2, 1] [Some 0, None])"
    by code_simp
  have den: "int_depth ex_zero_SFD (cross_section ex_zero_SFD) = Inr (arr [2, 1] [Some 0, None])"
    by code_simp
  have v: "priv_component ex_zero_SFD (int_depth ex_zero_SFD) ex_flow
      = Inr (arr [2, 1] [None, None])"
    by code_simp
  have i: "in_range (shape (arr [2, 1] [Some 0, None])) [0, 0]"
    "in_range (shape (arr [2, 1] [Some 0, None])) [1, 0]"
    "item (arr [2, 1] [Some 0, None]) [0, 0] = Some 0"
    "item (arr [2, 1] [Some 0, None]) [1, 0] = None"
    by code_simp+
  from component_division_masks [OF p num den] v i den show ?thesis
    by auto
qed

section \<open>Uniform fields\<close>

lemma dense_on_full: "dense_on P (full sh (Some c)) sh (\<lambda>_. c)"
  unfolding full_eq_mk by (rule dense_on_mk) simp


lemma dense_on_item1: "dense_on (loc True 0 s) f [S] w \<Longrightarrow> s < S \<Longrightarrow> item f [s] = Some (w [s])"
  by (simp add: dense_on_def loc_def)

lemma fluxes_at_location:
  assumes fx: "fluxes (new_SFD f sa c 0 (- 1)) = (Inr (f1, f2, f3, f4), st)"
    and s: "s < S"
    and fl: "dense_on (loc True 1 s) f [T, S, D] u"
    and sl: "dense_on (loc True 1 s) sa [T, S, D] v"
    and cs: "dense_on (loc True 1 s) c [T, S, D] a"
    and T: "0 < T"
    and nz1: "mean_first T (sum_last D a) [s] \<noteq> 0"
    and nz2: "\<And>j. j < T \<Longrightarrow> sum_last D a [j, s] \<noteq> 0"
    and nz3: "\<And>j. j < D \<Longrightarrow> mean_first T a [s, j] \<noteq> 0"
  shows "dense_on (loc True 0 s) f1 [S] (val_flux1 T D a u v)
    \<and> dense_on (loc True 0 s) f2 [S] (val_flux2 T D a u v)
    \<and> dense_on (loc True 0 s) f3 [S] (val_flux3 T D a u v)
    \<and> dense_on (loc True 0 s) f4 [S] (val_flux4 T D a u v)"
proof -
  let ?o = "new_SFD f sa c 0 (- 1)"
  have "\<exists>f1 f2 f3 f4.
      fluxes ?o = (Inr (f1, f2, f3, f4),
        ?o\<lparr>priv_flux0 := Some f1, priv_flux1 := Some f2,
            priv_flux3 := Some f3, priv_flux4 := Some f4\<rparr>)
      \<and> fst (flux1 ?o) = Inr f1 \<and> fst (flux2 ?o) = Inr f2
      \<and> fst (flux3 ?o) = Inr f3 \<and> fst (flux4 ?o) = Inr f4
      \<and> dense_on (loc True 0 s) f1 [S] (val_flux1 T D a u v)
      \<and> dense_on (loc True 0 s) f2 [S] (val_flux2 T D a u v)
      \<and> dense_on (loc True 0 s) f3 [S] (val_flux3 T D a u v)
      \<and> dense_on (loc True 0 s) f4 [S] (val_flux4 T D a u v)"
  proof (rule fluxes_dense)
    show "dense_on (loc True 1 s) (flow ?o) [T, S, D] u"
      using fl by (simp add: new_SFD_fields)
    show "dense_on (loc True 1 s) (salinity ?o) [T, S, D] v"
      using sl by (simp add: new_SFD_fields)
    show "dense_on (loc True 1 s) (cross_section ?o) [T, S, D] a"
      using cs by (simp add: new_SFD_fields)
  qed (simp_all add: new_SFD_fields T nz1 nz2 nz3)
  then show ?thesis
    using fx by auto
qed

lemma sum_last_const: "sum_last n (\<lambda>_. c) = (\<lambda>_. of_nat n * c)"
  by (rule ext) (simp add: sum_last_def sum_list_triv)

lemma mean_first_const: "0 < n \<Longrightarrow> mean_first n (\<lambda>_. c) = (\<lambda>_. c)"
  by (rule ext) (simp add: mean_first_def sum_list_triv)

lemma uniform_values:
  assumes T: "0 < T" and D: "0 < D" and ca: "ca \<noteq> 0"
  shows "val_flux1 T D (\<lambda>_. ca) (\<lambda>_. cu) (\<lambda>_. cv) = (\<lambda>_. cu * cv * (of_nat D * ca))"
    and "val_flux2 T D (\<lambda>_. ca) (\<lambda>_. cu) (\<lambda>_. cv) = (\<lambda>_. 0)"
    and "val_flux3 T D (\<lambda>_. ca) (\<lambda>_. cu) (\<lambda>_. cv) = (\<lambda>_. 0)"
    and "val_flux4 T D (\<lambda>_. ca) (\<lambda>_. cu) (\<lambda>_. cv) = (\<lambda>_. 0)"
proof -
  have k1: "val_comp1 T D (\<lambda>_. ca) (\<lambda>_. w) = (\<lambda>_. w)" for w
    using T D ca
    by (intro ext) (simp add: val_comp1_def val_component_def sum_last_const mean_first_const)
  have k2: "val_comp2 T D (\<lambda>_. ca) (\<lambda>_. w) = (\<lambda>_. 0)" for w
    using D ca by (intro ext) (simp add: val_comp2_def k1 val_component_def sum_last_const)
  have ki: "val_int T D (\<lambda>_. ca) (\<lambda>_. w) = (\<lambda>_. 0)" for w
    by (rule ext) (simp add: val_int_def k1 k2)
  have k3: "val_comp3 T D (\<lambda>_. ca) (\<lambda>_. w) = (\<lambda>_. 0)" for w
    using T by (intro ext) (simp add: val_comp3_def ki val_component_def mean_first_const)
  have k4: "val_comp4 T D (\<lambda>_. ca) (\<lambda>_. w) = (\<lambda>_. 0)" for w
    by (rule ext) (simp add: val_comp4_def ki k3)
  show "val_flux1 T D (\<lambda>_. ca) (\<lambda>_. cu) (\<lambda>_. cv) = (\<lambda>_. cu * cv * (of_nat D * ca))"
    using T by (intro ext) (simp add: val_flux1_def k1 sum_last_const mean_first_const)
  show "val_flux2 T D (\<lambda>_. ca) (\<lambda>_. cu) (\<lambda>_. cv) = (\<lambda>_. 0)"
    using T by (intro ext) (simp add: val_flux2_def k2 mean_first_const)
  show "val_flux3 T D (\<lambda>_. ca) (\<lambda>_. cu) (\<lambda>_. cv) = (\<lambda>_. 0)"
    by (intro ext) (simp add: val_flux3_def k3 sum_last_const)
  show "val_flux4 T D (\<lambda>_. ca) (\<lambda>_. cu) (\<lambda>_. cv) = (\<lambda>_. 0)"
    using T by (intro ext) (simp add: val_flux4_def k4 sum_last_const mean_first_const)
qed

lemma uniform_fluxes_at:
  assumes fx: "fluxes (new_SFD (full [T, S, D] (Some cu)) (full [T, S, D] (Some cv))
      (full [T, S, D] (Some ca)) 0 (- 1)) = (Inr (f1, f2, f3, f4), st)"
    and s: "s < S" and T: "0 < T" and D: "0 < D" and ca: "ca \<noteq> 0"
  shows "item f1 [s] = Some (cu * cv * (of_nat D * ca)) \<and> item f2 [s] = Some 0
    \<and> item f3 [s] = Some 0 \<and> item f4 [s] = Some 0"
proof -
  have "dense_on (loc True 0 s) f1 [S] (val_flux1 T D (\<lambda>_. ca) (\<lambda>_. cu) (\<lambda>_. cv))
    \<and> dense_on (loc True 0 s) f2 [S] (val_flux2 T D (\<lambda>_. ca) (\<lambda>_. cu) (\<lambda>_. cv))
    \<and> dense_on (loc True 0 s) f3 [S] (val_flux3 T D (\<lambda>_. ca) (\<lambda>_. cu) (\<lambda>_. cv))
    \<and> dense_on (loc True 0 s) f4 [S] (val_flux4 T D (\<lambda>_. ca) (\<lambda>_. cu) (\<lambda>_. cv))"
    using fx s
  proof (rule fluxes_at_location)
    show "mean_first T (sum_last D (\<lambda>_. ca)) [s] \<noteq> 0"
      using T D ca by (simp add: sum_last_const mean_first_const)
    show "sum_last D (\<lambda>_. ca) [j, s] \<noteq> 0" for j
      using D ca by (simp add: sum_last_const)
    show "mean_first T (\<lambda>_. ca) [s, j] \<noteq> 0" for j
      using T ca by (simp add: mean_first_const)
  qed (simp_all add: dense_on_full T)
  then show ?thesis
    using s by (auto simp: uniform_values [OF T D ca] dest!: dense_on_item1)
qed

text \<open>
  Claim C7. For the flow 1, the salinity 30 and the area 1 everywhere, on the shape
  (10, 10, 10) with the default axes (the fixture \<open>uniform\<close> of the tests), the four fluxes
  are arrays of shape (10,), and at every location \<open>flux1\<close> is 300 and \<open>flux2\<close>, \<open>flux3\<close>
  and \<open>flux4\<close> are 0.
\<close>

theorem uniform_decomposition:
  "\<exists>obj f1 f2 f3 f4 obj'.
      init (full [10, 10, 10] (Some 1)) (full [10, 10, 10] (Some 30))
        (full [10, 10, 10] (Some 1)) Map.empty = Inr obj
      \<and> fluxes obj = (Inr (f1, f2, f3, f4), obj')
      \<and> shape f1 = [10] \<and> shape f2 = [10] \<and> shape f3 = [10] \<and> shape f4 = [10]
      \<and> (\<forall>s<10. item f1 [s] = Some 300 \<and> item f2 [s] = Some 0
            \<and> item f3 [s] = Some 0 \<and> item f4 [s] = Some 0)"
proof -
  let ?f = "full [10, 10, 10] (Some 1)" and ?s = "full [10, 10, 10] (Some 30)"
  let ?o = "new_SFD ?f ?s ?f 0 (- 1)"
  have i: "init ?f ?s ?f Map.empty = Inr ?o"
    by (rule init_default) (simp_all add: shape_full)
  from new_SFD_fluxes [of ?f 10 10 10 ?s ?f] obtain f1 f2 f3 f4 st
    where fx: "fluxes ?o = (Inr (f1, f2, f3, f4), st)"
      and sh: "shape f1 = [10]" "shape f2 = [10]" "shape f3 = [10]" "shape f4 = [10]"
    by (auto simp: shape_full)
  have "item f1 [s] = Some 300 \<and> item f2 [s] = Some 0 \<and> item f3 [s] = Some 0
      \<and> item f4 [s] = Some 0" if "s < 10" for s
    using uniform_fluxes_at [OF fx that] by simp
  with i fx sh show ?thesis
    by blast
qed

theorem uniform_decomposition_witness:
  "\<exists>obj f1 f2 f3 f4 obj'.
      init (full [10, 10, 10] (Some 1)) (full [10, 10, 10] (Some 30))
        (full [10, 10, 10] (Some 1)) Map.empty = Inr obj
      \<and> fluxes obj = (Inr (f1, f2, f3, f4), obj')
      \<and> item f1 [3] = Some 300 \<and> item f2 [3] = Some 0
      \<and> item f3 [3] = Some 0 \<and> item f4 [3] = Some 0"
proof -
  from uniform_decomposition obtain obj f1 f2 f3 f4 obj'
    where "init (full [10, 10, 10] (Some 1)) (full [10, 10, 10] (Some 30))
        (full [10, 10, 10] (Some 1)) Map.empty = Inr obj"
      and "fluxes obj = (Inr (f1, f2, f3, f4), obj')"
      and "\<forall>s<10. item f1 [s] = Some 300 \<and> item f2 [s] = Some 0
            \<and> item f3 [s] = Some 0 \<and> item f4 [s] = Some 0"
    by blast
  moreover have "(3::nat) < 10"
    by simp
  ultimately show ?thesis
    by blast
qed

section \<open>The decomposition of the total transport\<close>





end
